theory Spec2Isabelle
  imports Main
begin

section \<open>Strings\<close>

text \<open>
  JavaScript strings are modelled as \<^typ>\<open>string\<close>, one \<^typ>\<open>char\<close> per code unit, for the
  code units below 256: the white space of \<^verbatim>\<open>trim\<close> and of the regular expression class
  \<^verbatim>\<open>\s\<close> is the six ASCII white-space characters and the no-break space, \<^verbatim>\<open>\d\<close> is \<^verbatim>\<open>0\<close>
  to \<^verbatim>\<open>9\<close>, and the case conversions act on the letters \<^verbatim>\<open>a\<close> to \<^verbatim>\<open>z\<close> and \<^verbatim>\<open>A\<close>
  to \<^verbatim>\<open>Z\<close> only.
\<close>

definition is_space :: "char \<Rightarrow> bool" where
  "is_space c = (c \<in> {CHR 0x09, CHR 0x0A, CHR 0x0B, CHR 0x0C, CHR 0x0D, CHR 0x20, CHR 0xA0})"

definition is_digit :: "char \<Rightarrow> bool" where
  "is_digit c = (c \<in> set ''0123456789'')"

definition lower_letters :: string where
  "lower_letters = ''abcdefghijklmnopqrstuvwxyz''"

definition upper_letters :: string where
  "upper_letters = ''ABCDEFGHIJKLMNOPQRSTUVWXYZ''"

definition upper_char :: "char \<Rightarrow> char" where
  "upper_char c = (case map_of (zip lower_letters upper_letters) c of Some u \<Rightarrow> u | None \<Rightarrow> c)"

definition lower_char :: "char \<Rightarrow> char" where
  "lower_char c = (case map_of (zip upper_letters lower_letters) c of Some l \<Rightarrow> l | None \<Rightarrow> c)"

definition toUpperCase :: "string \<Rightarrow> string" where
  "toUpperCase s = map upper_char s"

definition toLowerCase :: "string \<Rightarrow> string" where
  "toLowerCase s = map lower_char s"

text \<open>\<^verbatim>\<open>s.trim()\<close>: white space removed at both ends.\<close>

definition trim :: "string \<Rightarrow> string" where
  "trim s = rev (dropWhile is_space (rev (dropWhile is_space s)))"

text \<open>\<^verbatim>\<open>s.substring(a, b)\<close> and \<^verbatim>\<open>s.substring(a)\<close> for \<open>a \<le> b\<close>, indices clamped to the string.\<close>

definition substring :: "string \<Rightarrow> nat \<Rightarrow> nat \<Rightarrow> string" where
  "substring s a b = take (b - a) (drop a s)"

definition substring_from :: "string \<Rightarrow> nat \<Rightarrow> string" where
  "substring_from s a = drop a s"

text \<open>\<^verbatim>\<open>s.split(sep)\<close> for a one-character separator: the empty string gives one empty part.\<close>

fun split_acc :: "char \<Rightarrow> string \<Rightarrow> string \<Rightarrow> string list" where
  "split_acc sep cur [] = [cur]"
| "split_acc sep cur (c # cs) =
     (if c = sep then cur # split_acc sep [] cs else split_acc sep (cur @ [c]) cs)"

definition split :: "char \<Rightarrow> string \<Rightarrow> string list" where
  "split sep s = split_acc sep [] s"

text \<open>\<^verbatim>\<open>parts.join(sep)\<close>.\<close>

fun join :: "string \<Rightarrow> string list \<Rightarrow> string" where
  "join sep [] = []"
| "join sep [p] = p"
| "join sep (p # q # ps) = p @ sep @ join sep (q # ps)"

text \<open>\<^verbatim>\<open>s.includes(t)\<close>: \<open>t\<close> occurs in \<open>s\<close> as a contiguous substring.\<close>

fun starts_with :: "string \<Rightarrow> string \<Rightarrow> bool" where
  "starts_with s [] = True"
| "starts_with [] (p # ps) = False"
| "starts_with (c # cs) (p # ps) = (c = p \<and> starts_with cs ps)"

fun includes_str :: "string \<Rightarrow> string \<Rightarrow> bool" where
  "includes_str [] t = (t = [])"
| "includes_str (c # cs) t = (starts_with (c # cs) t \<or> includes_str cs t)"

section \<open>Helper functions\<close>

text \<open>
  \<^verbatim>\<open>maskNumber\<close>: the trimmed text, and when it is longer than 7 characters its first three
  characters, three asterisks and its last four characters.
\<close>

definition maskNumber :: "string \<Rightarrow> string" where
  "maskNumber number =
     (let numStr = trim number
      in if length numStr > 7
         then substring numStr 0 3 @ ''***'' @ substring_from numStr (length numStr - 4)
         else numStr)"

text \<open>
  \<^verbatim>\<open>extractCountryFromTermination\<close>: the loop over the parts stops at the first part that is
  MOBILE or FIXED in upper case or holds a digit; \<open>collect_parts\<close> is that loop, with
  \<open>countryParts\<close> as its accumulator.
\<close>

definition stop_part :: "string \<Rightarrow> bool" where
  "stop_part part = (toUpperCase part \<in> set [''MOBILE'', ''FIXED''] \<or> list_ex is_digit part)"

fun collect_parts :: "string list \<Rightarrow> string list \<Rightarrow> string list" where
  "collect_parts countryParts [] = countryParts"
| "collect_parts countryParts (part # parts) =
     (if stop_part part then countryParts else collect_parts (countryParts @ [part]) parts)"

definition extractCountryFromTermination :: "string \<Rightarrow> string" where
  "extractCountryFromTermination text =
     (let parts = split (CHR '' '') text;
          countryParts = collect_parts [] parts
      in if length countryParts > 0 then join '' '' countryParts else text)"

section \<open>Rows of the live-calls page\<close>

text \<open>
  A row matched by the selector \<^verbatim>\<open>#LiveCalls tr, #last-activity tbody.lastdata tr\<close>:
  \<open>columns\<close> holds the text of its \<^verbatim>\<open>td\<close> elements and \<open>buttons\<close> the \<^verbatim>\<open>onclick\<close>
  attribute of each of its \<^verbatim>\<open>button\<close> elements that has one, in document order.
\<close>

record row =
  columns :: "string list"
  buttons :: "string list"

record callData =
  country :: string
  number :: string
  cliNumber :: string
  audioUrl :: string

definition is_quote :: "char \<Rightarrow> bool" where
  "is_quote c = (c = CHR 0x27 \<or> c = CHR 0x22)"

text \<open>
  The regular expression \<^verbatim>\<open>/Play\(['"]([^'"]+)['"],\s*['"]([^'"]+)['"]\)/\<close>.
  \<open>quoted_arg\<close> reads \<^verbatim>\<open>['"]([^'"]+)['"]\<close> at the start of a string and gives the
  group and the rest: the group is the longest run of characters that are not quotes (no
  shorter run is followed by a quote), and it must not be empty. \<open>match_play_here\<close> matches
  the whole expression at the start of a string and \<open>match_play\<close> is \<^verbatim>\<open>String.match\<close>: the
  match at the leftmost position that has one, as the pair of groups \<open>(did, uuid)\<close>.
\<close>

definition quoted_arg :: "string \<Rightarrow> (string \<times> string) option" where
  "quoted_arg s =
     (case s of
        [] \<Rightarrow> None
      | q # r \<Rightarrow>
          if is_quote q
          then (let g = takeWhile (Not \<circ> is_quote) r;
                    r' = dropWhile (Not \<circ> is_quote) r
                in if g \<noteq> [] \<and> r' \<noteq> [] then Some (g, tl r') else None)
          else None)"

definition match_play_here :: "string \<Rightarrow> (string \<times> string) option" where
  "match_play_here s =
     (if starts_with s ''Play(''
      then (case quoted_arg (drop 5 s) of
              None \<Rightarrow> None
            | Some (did, r1) \<Rightarrow>
                (case r1 of
                   [] \<Rightarrow> None
                 | c # r2 \<Rightarrow>
                     if c = CHR '','' 
                     then (case quoted_arg (dropWhile is_space r2) of
                             None \<Rightarrow> None
                           | Some (uuid, r3) \<Rightarrow>
                               (case r3 of
                                  [] \<Rightarrow> None
                                | c' # r4 \<Rightarrow> if c' = CHR '')'' then Some (did, uuid) else None))
                     else None))
      else None)"

fun match_play :: "string \<Rightarrow> (string \<times> string) option" where
  "match_play [] = match_play_here []"
| "match_play (c # cs) =
     (case match_play_here (c # cs) of Some m \<Rightarrow> Some m | None \<Rightarrow> match_play cs)"

section \<open>The monitoring loop\<close>

text \<open>A thrown error: its \<^verbatim>\<open>message\<close> and, when it has one, \<^verbatim>\<open>response.data.description\<close>.\<close>

datatype exn = Error (message: string) (description: "string option")

text \<open>
  What one pass of the loop does, in order: \<open>Added k\<close> is \<^verbatim>\<open>processedCalls.add(k)\<close>,
  \<open>Started k d\<close> is the call \<^verbatim>\<open>sendInstantNotification(d)\<close> that starts the notification of the
  call with id \<open>k\<close>, \<open>LoopError\<close> is the log entry of the loop's \<^verbatim>\<open>catch\<close> and \<open>Sleep\<close> a
  pause in milliseconds.
\<close>

datatype loop_event =
    Added string
  | Started string callData
  | LoopError string
  | Sleep nat

definition audio_url :: "string \<Rightarrow> string \<Rightarrow> string" where
  "audio_url did uuid =
     ''https://www.orangecarrier.com/live/calls/sound?did='' @ did @ ''&uuid='' @ uuid"

text \<open>The buttons of a row that the selector \<^verbatim>\<open>button[onclick*='Play']\<close> finds.\<close>

definition play_buttons :: "row \<Rightarrow> string list" where
  "play_buttons r = filter (\<lambda>onclick. includes_str onclick ''Play'') (buttons r)"

text \<open>The body of the \<^verbatim>\<open>each\<close> callback for one row, with the set \<open>processedCalls\<close> passed through.\<close>

definition process_row :: "string set \<Rightarrow> row \<Rightarrow> string set \<times> loop_event list" where
  "process_row processedCalls r =
     (if length (columns r) > 2
      then (let cli = trim (columns r ! 2);
                playButton = play_buttons r
            in if playButton \<noteq> []
               then (case match_play (hd playButton) of
                       None \<Rightarrow> (processedCalls, [])
                     | Some (did, uuid) \<Rightarrow>
                         (let callId = cli @ ''_'' @ uuid
                          in if callId \<notin> processedCalls
                             then (insert callId processedCalls,
                                   [Added callId,
                                    Started callId
                                      \<lparr>country = extractCountryFromTermination (trim (columns r ! 0)),
                                       number = trim (columns r ! 1),
                                       cliNumber = cli,
                                       audioUrl = audio_url did uuid\<rparr>])
                             else (processedCalls, [])))
               else (processedCalls, []))
      else (processedCalls, []))"

fun each_row :: "string set \<Rightarrow> row list \<Rightarrow> string set \<times> loop_event list" where
  "each_row processedCalls [] = (processedCalls, [])"
| "each_row processedCalls (r # rs) =
     (let (processedCalls', evs) = process_row processedCalls r;
          (processedCalls'', evs') = each_row processedCalls' rs
      in (processedCalls'', evs @ evs'))"

text \<open>
  One iteration of \<^verbatim>\<open>while (true)\<close>. The snapshot is what \<^verbatim>\<open>page.content()\<close> settles to:
  the rows of the page, or the error it rejects with, which the \<^verbatim>\<open>catch\<close> logs before a
  pause of 15 seconds.
\<close>

definition loop_iteration :: "string set \<Rightarrow> exn + row list \<Rightarrow> string set \<times> loop_event list" where
  "loop_iteration processedCalls snapshot =
     (case snapshot of
        Inl e \<Rightarrow> (processedCalls, [LoopError (message e), Sleep 15000, Sleep 100])
      | Inr rows \<Rightarrow>
          (let (processedCalls', evs) = each_row processedCalls rows
           in (processedCalls', evs @ [Sleep 100])))"

text \<open>
  The loop never ends; \<open>monitoring_loop\<close> runs its first iterations, one for each snapshot
  of the list, and \<open>monitor\<close> starts it as \<^verbatim>\<open>main\<close> does, from the empty set.
\<close>

fun monitoring_loop :: "string set \<Rightarrow> (exn + row list) list \<Rightarrow> string set \<times> loop_event list" where
  "monitoring_loop processedCalls [] = (processedCalls, [])"
| "monitoring_loop processedCalls (snapshot # snapshots) =
     (let (processedCalls', evs) = loop_iteration processedCalls snapshot;
          (processedCalls'', evs') = monitoring_loop processedCalls' snapshots
      in (processedCalls'', evs @ evs'))"

definition monitor :: "(exn + row list) list \<Rightarrow> string set \<times> loop_event list" where
  "monitor snapshots = monitoring_loop {} snapshots"

fun started_ids :: "loop_event list \<Rightarrow> string list" where
  "started_ids [] = []"
| "started_ids (Started k d # evs) = k # started_ids evs"
| "started_ids (ev # evs) = started_ids evs"

text \<open>
  The invariant of a run of the loop from the set \<open>pc\<close> to the set \<open>pc'\<close> with events \<open>evs\<close>:
  the ids started are pairwise different, none was in \<open>pc\<close>, \<open>pc'\<close> is \<open>pc\<close> with them,
  and each start comes right after the addition of its id.
\<close>

definition run_inv :: "string set \<Rightarrow> string set \<Rightarrow> loop_event list \<Rightarrow> bool" where
  "run_inv pc pc' evs \<longleftrightarrow>
     distinct (started_ids evs) \<and> set (started_ids evs) \<inter> pc = {} \<and>
     pc' = pc \<union> set (started_ids evs) \<and>
     (\<forall>pre k d post. evs = pre @ Started k d # post \<longrightarrow> pre \<noteq> [] \<and> last pre = Added k)"

text \<open>The row and the call of the end-to-end scenario.\<close>

definition usa_row :: row where
  "usa_row = \<lparr>columns = [''USA MOBILE 1'', ''15551234567'', ''CLI1''],
              buttons = [''Play('did9','uuid9')'']\<rparr>"

definition usa_call :: callData where
  "usa_call = \<lparr>country = ''USA'', number = ''15551234567'', cliNumber = ''CLI1'',
               audioUrl = ''https://www.orangecarrier.com/live/calls/sound?did=did9&uuid=uuid9''\<rparr>"

section \<open>Effects and exceptions\<close>

text \<open>
  A computation gives the list of the actions it performed on the outside world, in order,
  and its outcome: \<open>Inr v\<close> when it returns \<open>v\<close>, \<open>Inl e\<close> when it throws (or its promise
  rejects with) \<open>e\<close>. \<open>await\<close> is a call to the outside world whose outcome is given;
  \<open>io_catch\<close> is \<^verbatim>\<open>try { ... } catch (e) { ... }\<close>.
  Log entries are given without their leading glyph. The actions from \<open>Launch\<close> on are
  those of the login: the calls to the browser and its page.
\<close>

datatype js_id = Null | Undefined | MessageId nat

text \<open>
  The text of the alert and the caption of the audio: the flag, the country and the masked
  number, which the source places in a fixed wording.
\<close>

datatype flag = Flag string | Globe

record notice =
  notice_flag :: flag
  notice_country :: string
  notice_number :: string

datatype action =
    PostSendMessage notice
  | PostSendAudio notice string
  | PostDeleteMessage js_id
  | HttpGet string string
  | WriteFile string string
  | Ffmpeg string string
  | Unlink string
  | SetTimeout nat
  | LogInfo string
  | LogError string
  | Launch
  | NewPage
  | GotoLogin
  | Wait nat
  | ScanInputs
  | TypeUsername nat
  | TypePassword nat
  | FindSubmit
  | FindSignIn
  | ClickLogin
  | ReadContent
  | GotoLiveCalls
  | ReadCookies
  | CloseBrowser

type_synonym 'a io = "action list \<times> (exn + 'a)"

definition ret :: "'a \<Rightarrow> 'a io" where
  "ret v = ([], Inr v)"

definition throw :: "exn \<Rightarrow> 'a io" where
  "throw e = ([], Inl e)"

definition emit :: "action \<Rightarrow> unit io" where
  "emit a = ([a], Inr ())"

definition await :: "action \<Rightarrow> exn + 'a \<Rightarrow> 'a io" where
  "await a outcome = ([a], outcome)"

definition io_bind :: "'a io \<Rightarrow> ('a \<Rightarrow> 'b io) \<Rightarrow> 'b io" where
  "io_bind m f =
     (case m of
        (tr, Inl e) \<Rightarrow> (tr, Inl e)
      | (tr, Inr v) \<Rightarrow> (case f v of (tr', r) \<Rightarrow> (tr @ tr', r)))"

definition io_catch :: "'a io \<Rightarrow> (exn \<Rightarrow> 'a io) \<Rightarrow> 'a io" where
  "io_catch m handler =
     (case m of
        (tr, Inl e) \<Rightarrow> (case handler e of (tr', r) \<Rightarrow> (tr @ tr', r))
      | (tr, Inr v) \<Rightarrow> (tr, Inr v))"

text \<open>\<^verbatim>\<open>e.response?.data?.description || e.message\<close>.\<close>

definition error_text :: "exn \<Rightarrow> string" where
  "error_text e =
     (case description e of
        None \<Rightarrow> message e
      | Some d \<Rightarrow> if d = [] then message e else d)"

text \<open>Decimal digits of a number, as template literals print it.\<close>

fun show_nat :: "nat \<Rightarrow> string" where
  "show_nat n =
     (if n < 10 then [''0123456789'' ! n]
      else show_nat (n div 10) @ [''0123456789'' ! (n mod 10)])"

declare show_nat.simps [simp del]

definition show_id :: "js_id \<Rightarrow> string" where
  "show_id i = (case i of Null \<Rightarrow> ''null'' | Undefined \<Rightarrow> ''undefined'' | MessageId n \<Rightarrow> show_nat n)"

text \<open>The test \<^verbatim>\<open>if (notificationMessageId)\<close>.\<close>

definition truthy :: "js_id \<Rightarrow> bool" where
  "truthy i = (case i of Null \<Rightarrow> False | Undefined \<Rightarrow> False | MessageId n \<Rightarrow> n \<noteq> 0)"

text \<open>\<^verbatim>\<open>s.replace(pat, rep)\<close> with a string pattern: the first occurrence only.\<close>

fun replace_first :: "string \<Rightarrow> string \<Rightarrow> string \<Rightarrow> string" where
  "replace_first pat rep [] = (if pat = [] then rep else [])"
| "replace_first pat rep (c # cs) =
     (if starts_with (c # cs) pat then rep @ drop (length pat) (c # cs)
      else c # replace_first pat rep cs)"

text \<open>
  \<^verbatim>\<open>path.join(dir, name)\<close> and \<^verbatim>\<open>path.basename(p)\<close> on paths that need no normalising.
\<close>

definition path_join :: "string \<Rightarrow> string \<Rightarrow> string" where
  "path_join dir name = dir @ ''/'' @ name"

definition basename :: "string \<Rightarrow> string" where
  "basename p = last (split (CHR ''/'') p)"

section \<open>The messaging sink\<close>

text \<open>
  The tables of \<^verbatim>\<open>countries.js\<close> are parameters. A name without a code looks the flag of
  the key \<^verbatim>\<open>undefined\<close> up, and a missing or empty flag gives the globe.
\<close>

record tables =
  COUNTRY_NAME_TO_CODE :: "string \<rightharpoonup> string"
  COUNTRY_FLAGS :: "string \<rightharpoonup> string"

definition getCountryFlag :: "tables \<Rightarrow> string \<Rightarrow> flag" where
  "getCountryFlag T countryName =
     (let countryNameUpper = toUpperCase (trim countryName);
          countryCode = (case COUNTRY_NAME_TO_CODE T countryNameUpper of
                           None \<Rightarrow> ''undefined''
                         | Some code \<Rightarrow> code)
      in case COUNTRY_FLAGS T countryCode of
           None \<Rightarrow> Globe
         | Some f \<Rightarrow> if f = [] then Globe else Flag f)"

definition notice_of :: "tables \<Rightarrow> callData \<Rightarrow> notice" where
  "notice_of T callData =
     \<lparr>notice_flag = getCountryFlag T (country callData),
      notice_country = country callData,
      notice_number = maskNumber (number callData)\<rparr>"

text \<open>
  What the outside world answers to the calls of one notification. A resolved
  \<^verbatim>\<open>sendMessage\<close> response is read at \<^verbatim>\<open>response.data.result.message_id\<close>: \<open>NoData\<close> has
  no \<^verbatim>\<open>data\<close>, \<open>NoResult\<close> no \<^verbatim>\<open>result\<close> (reading on throws a TypeError), and
  \<open>Result m\<close> has a result whose \<^verbatim>\<open>message_id\<close> is \<open>m\<close>, absent when \<open>None\<close>.
\<close>

datatype reply_body = NoData | NoResult | Result "nat option"

record world =
  sendMessage_reply :: "exn + reply_body"
  audio_reply :: "exn + string"
  writeFile_reply :: "exn + unit"
  ffmpeg_reply :: "exn + unit"
  sendAudio_reply :: "exn + unit"
  deleteMessage_reply :: "exn + unit"
  unlink_wav_reply :: "exn + unit"
  unlink_mp3_reply :: "exn + unit"
  now :: nat
  dirname :: string

definition read_message_id :: "reply_body \<Rightarrow> js_id io" where
  "read_message_id body =
     (case body of
        NoData \<Rightarrow> throw (Error ''Cannot read properties of undefined (reading 'result')'' None)
      | NoResult \<Rightarrow> throw (Error ''Cannot read properties of undefined (reading 'message_id')'' None)
      | Result None \<Rightarrow> ret Undefined
      | Result (Some n) \<Rightarrow> ret (MessageId n))"

definition deleteTelegramMessage :: "world \<Rightarrow> js_id \<Rightarrow> bool io" where
  "deleteTelegramMessage w messageId =
     io_catch
       (io_bind (await (PostDeleteMessage messageId) (deleteMessage_reply w)) (\<lambda>_.
        io_bind (emit (LogInfo (''Message '' @ show_id messageId @ '' deleted successfully.''))) (\<lambda>_.
        ret True)))
       (\<lambda>e.
        io_bind (emit (LogError (''Failed to delete message '' @ show_id messageId @ '': '' @ error_text e))) (\<lambda>_.
        ret False))"

definition sendAudioToTelegramGroup :: "world \<Rightarrow> notice \<Rightarrow> string \<Rightarrow> bool io" where
  "sendAudioToTelegramGroup w caption filePath =
     io_catch
       (io_bind (await (PostSendAudio caption filePath) (sendAudio_reply w)) (\<lambda>_.
        io_bind (emit (LogInfo ''Audio file sent to Telegram successfully.'')) (\<lambda>_.
        ret True)))
       (\<lambda>e.
        io_bind (emit (LogError (''Failed to send audio file: '' @ error_text e))) (\<lambda>_.
        ret False))"

definition sendInstantNotification :: "tables \<Rightarrow> world \<Rightarrow> callData \<Rightarrow> js_id io" where
  "sendInstantNotification T w callData =
     (let message = notice_of T callData
      in io_catch
           (io_bind (await (PostSendMessage message) (sendMessage_reply w)) (\<lambda>response.
            io_bind (read_message_id response) (\<lambda>messageId.
            io_bind (emit (LogInfo (''Instant notification sent for '' @ cliNumber callData
                                     @ '' (Message ID: '' @ show_id messageId @ '')''))) (\<lambda>_.
            ret messageId))))
           (\<lambda>e.
            io_bind (emit (LogError (''Failed to send instant notification: '' @ error_text e))) (\<lambda>_.
            ret Null)))"

section \<open>Processing a call\<close>

text \<open>The two temporary files of a call: the downloaded WAV file and the MP3 file made from it.\<close>

definition wav_name :: "world \<Rightarrow> callData \<Rightarrow> string" where
  "wav_name w callData = ''call_'' @ show_nat (now w) @ ''_'' @ cliNumber callData @ ''.wav''"

definition wav_path :: "world \<Rightarrow> callData \<Rightarrow> string" where
  "wav_path w callData = path_join (dirname w) (wav_name w callData)"

definition mp3_path :: "world \<Rightarrow> callData \<Rightarrow> string" where
  "mp3_path w callData = replace_first ''.wav'' ''.mp3'' (wav_path w callData)"

definition cookie_header :: "(string \<times> string) list \<Rightarrow> string" where
  "cookie_header cookies = join ''; '' (map (\<lambda>c. fst c @ ''='' @ snd c) cookies)"

text \<open>
  The promise around ffmpeg: the \<^verbatim>\<open>end\<close> event logs and resolves, the \<^verbatim>\<open>error\<close> event logs
  and rejects with the error.
\<close>

definition convert :: "world \<Rightarrow> string \<Rightarrow> string \<Rightarrow> unit io" where
  "convert w filePath filePathMp3 =
     (case ffmpeg_reply w of
        Inr _ \<Rightarrow> ([Ffmpeg filePath filePathMp3,
                   LogInfo (''Converted to MP3: '' @ basename filePathMp3)], Inr ())
      | Inl err \<Rightarrow> ([Ffmpeg filePath filePathMp3,
                     LogError (''FFmpeg conversion error: '' @ message err)], Inl err))"

text \<open>The \<^verbatim>\<open>try\<close> block of \<^verbatim>\<open>processCallWorker\<close>, and the function with its \<^verbatim>\<open>catch\<close>.\<close>

definition processCallWorker_try ::
  "tables \<Rightarrow> world \<Rightarrow> callData \<Rightarrow> (string \<times> string) list \<Rightarrow> js_id \<Rightarrow> unit io" where
  "processCallWorker_try T w callData cookies notificationMessageId =
     (let fileName = wav_name w callData;
          filePath = wav_path w callData;
          filePathMp3 = mp3_path w callData;
          caption = notice_of T callData
      in io_bind (await (HttpGet (audioUrl callData) (cookie_header cookies)) (audio_reply w)) (\<lambda>response.
         io_bind (await (WriteFile filePath response) (writeFile_reply w)) (\<lambda>_.
         io_bind (emit (LogInfo (''Audio file downloaded (WAV): '' @ fileName))) (\<lambda>_.
         io_bind (convert w filePath filePathMp3) (\<lambda>_.
         io_bind (sendAudioToTelegramGroup w caption filePathMp3) (\<lambda>_.
         io_bind (if truthy notificationMessageId
                  then io_bind (deleteTelegramMessage w notificationMessageId) (\<lambda>_. ret ())
                  else ret ()) (\<lambda>_.
         io_bind (await (Unlink filePath) (unlink_wav_reply w)) (\<lambda>_.
         io_bind (await (Unlink filePathMp3) (unlink_mp3_reply w)) (\<lambda>_.
         emit (LogInfo ''Temporary files deleted.''))))))))))"

definition processCallWorker ::
  "tables \<Rightarrow> world \<Rightarrow> callData \<Rightarrow> (string \<times> string) list \<Rightarrow> js_id \<Rightarrow> unit io" where
  "processCallWorker T w callData cookies notificationMessageId =
     io_catch (processCallWorker_try T w callData cookies notificationMessageId)
       (\<lambda>e. emit (LogError (''Error processing call for '' @ cliNumber callData @ '': '' @ message e)))"

text \<open>
  What \<^verbatim>\<open>main\<close> does with a new call: the alert, and in the \<^verbatim>\<open>then\<close> handler, when the
  message id is truthy, the timer of 20 seconds whose callback runs the worker. Timers are
  never cancelled, so the callback's actions follow \<open>SetTimeout\<close> in the list.
\<close>

definition start_notification ::
  "tables \<Rightarrow> world \<Rightarrow> (string \<times> string) list \<Rightarrow> callData \<Rightarrow> unit io" where
  "start_notification T w cookies callData =
     io_catch
       (io_bind (sendInstantNotification T w callData) (\<lambda>notificationMessageId.
          if truthy notificationMessageId
          then io_bind (emit (LogInfo (''New call detected ('' @ cliNumber callData
                                       @ ''), scheduling audio after 20s...''))) (\<lambda>_.
               io_bind (emit (SetTimeout 20000)) (\<lambda>_.
               io_catch (processCallWorker T w callData cookies notificationMessageId)
                 (\<lambda>err. emit (LogError (''Call processing failed for '' @ cliNumber callData
                                         @ '': '' @ message err)))))
          else ret ()))
       (\<lambda>err. emit (LogError (''Notification failed for '' @ cliNumber callData @ '': '' @ message err)))"

text \<open>The kinds of action that the claims speak of.\<close>

fun is_send_audio :: "action \<Rightarrow> bool" where
  "is_send_audio (PostSendAudio caption filePath) = True"
| "is_send_audio a = False"

fun is_delete_message :: "action \<Rightarrow> bool" where
  "is_delete_message (PostDeleteMessage messageId) = True"
| "is_delete_message a = False"

fun is_unlink :: "action \<Rightarrow> bool" where
  "is_unlink (Unlink filePath) = True"
| "is_unlink a = False"

text \<open>The actions of the phases after the alert: the timer, the download, the conversion,
  the audio message, the deletion of the alert and the removal of the files.\<close>

fun after_alert :: "action \<Rightarrow> bool" where
  "after_alert (SetTimeout ms) = True"
| "after_alert (HttpGet url cookie) = True"
| "after_alert (WriteFile filePath bytes) = True"
| "after_alert (Ffmpeg filePath filePathMp3) = True"
| "after_alert (PostSendAudio caption filePath) = True"
| "after_alert (PostDeleteMessage messageId) = True"
| "after_alert (Unlink filePath) = True"
| "after_alert a = False"

text \<open>A world where every call succeeds, the alert getting the message id 42.\<close>

definition ok_world :: world where
  "ok_world =
     \<lparr>sendMessage_reply = Inr (Result (Some 42)),
      audio_reply = Inr ''RIFF'',
      writeFile_reply = Inr (),
      ffmpeg_reply = Inr (),
      sendAudio_reply = Inr (),
      deleteMessage_reply = Inr (),
      unlink_wav_reply = Inr (),
      unlink_mp3_reply = Inr (),
      now = 1700000000000,
      dirname = ''/app''\<rparr>"

definition usa_tables :: tables where
  "usa_tables = \<lparr>COUNTRY_NAME_TO_CODE = [''USA'' \<mapsto> ''US''], COUNTRY_FLAGS = [''US'' \<mapsto> ''us'']\<rparr>"

text \<open>The same world with a failing audio message, a failing conversion, a failing alert.\<close>

definition audio_fail_world :: world where
  "audio_fail_world = ok_world\<lparr>sendAudio_reply := Inl (Error ''timeout of 30000ms exceeded'' None)\<rparr>"

definition ffmpeg_fail_world :: world where
  "ffmpeg_fail_world = ok_world\<lparr>ffmpeg_reply := Inl (Error ''ffmpeg exited with code 1'' None)\<rparr>"

definition alert_fail_world :: world where
  "alert_fail_world =
     ok_world\<lparr>sendMessage_reply :=
       Inl (Error ''Request failed with status code 400'' (Some ''Bad Request: chat not found''))\<rparr>"

section \<open>Login\<close>

text \<open>The attributes read from an \<^verbatim>\<open>input\<close> element; \<open>None\<close> is the \<^verbatim>\<open>null\<close> of a missing one.\<close>

record input_attrs =
  attr_type :: "string option"
  attr_placeholder :: "string option"
  attr_name :: "string option"
  attr_id :: "string option"

text \<open>
  What the browser answers during one attempt. \<open>inputs_reply\<close> is the outcome of
  \<^verbatim>\<open>page.$$("input")\<close> with the \<^verbatim>\<open>evaluate\<close> of each element, \<open>submit_reply\<close> whether
  \<^verbatim>\<open>page.$\<close> finds a submit control, \<open>signin_reply\<close> the number of buttons that \<^verbatim>\<open>page.$x\<close>
  finds, and \<open>click_reply\<close> the outcome of the click (the wait for the navigation absorbs its
  own failure).
\<close>

record attempt =
  launch_reply :: "exn + unit"
  newPage_reply :: "exn + unit"
  goto_login_reply :: "exn + unit"
  inputs_reply :: "exn + input_attrs list"
  type_email_reply :: "exn + unit"
  type_pass_reply :: "exn + unit"
  submit_reply :: "exn + bool"
  signin_reply :: "exn + nat"
  click_reply :: "exn + unit"
  url :: string
  content_reply :: "exn + string"
  goto_live_reply :: "exn + unit"
  cookies_reply :: "exn + (string \<times> string) list"
  close_reply :: "exn + unit"

definition mentions_email :: "string option \<Rightarrow> bool" where
  "mentions_email attr =
     (case attr of None \<Rightarrow> False | Some v \<Rightarrow> includes_str (toLowerCase v) ''email'')"

definition looks_like_email :: "input_attrs \<Rightarrow> bool" where
  "looks_like_email attrs =
     (attr_type attrs = Some ''email'' \<or> mentions_email (attr_placeholder attrs) \<or>
      mentions_email (attr_name attrs) \<or> mentions_email (attr_id attrs))"

text \<open>
  The loop over the inputs: \<open>emailField\<close> and \<open>passField\<close> keep the first input that fits, by
  its position in the list.
\<close>

fun scan_inputs ::
  "nat \<Rightarrow> input_attrs list \<Rightarrow> nat option \<Rightarrow> nat option \<Rightarrow> nat option \<times> nat option" where
  "scan_inputs i [] emailField passField = (emailField, passField)"
| "scan_inputs i (attrs # inputs) emailField passField =
     scan_inputs (Suc i) inputs
       (if emailField = None \<and> looks_like_email attrs then Some i else emailField)
       (if passField = None \<and> attr_type attrs = Some ''password'' then Some i else passField)"

text \<open>The \<^verbatim>\<open>try\<close> block of one attempt, in three parts; it returns the cookies of the session.\<close>

definition login_verify :: "attempt \<Rightarrow> (string \<times> string) list io" where
  "login_verify a =
     (if includes_str (url a) ''orangecarrier.com''
      then io_bind (await ReadContent (content_reply a)) (\<lambda>pageContent.
             if includes_str pageContent ''Dashboard'' \<or> includes_str pageContent ''Account Code''
             then io_bind (emit (LogInfo ''Login successful! Dashboard detected.'')) (\<lambda>_.
                  io_bind (await GotoLiveCalls (goto_live_reply a)) (\<lambda>_.
                  await ReadCookies (cookies_reply a)))
             else throw (Error ''Login failed or dashboard not detected.'' None))
      else throw (Error ''Login failed or dashboard not detected.'' None))"

definition login_submit :: "attempt \<Rightarrow> (string \<times> string) list io" where
  "login_submit a =
     io_bind (await FindSubmit (submit_reply a)) (\<lambda>found.
     io_bind (if found then ret True
              else io_bind (await FindSignIn (signin_reply a)) (\<lambda>signInBtns. ret (signInBtns > 0)))
       (\<lambda>loginBtn.
     if loginBtn
     then io_bind (emit (LogInfo ''Clicking Sign In button...'')) (\<lambda>_.
          io_bind (await ClickLogin (click_reply a)) (\<lambda>_.
          login_verify a))
     else throw (Error ''Sign In button not found!'' None)))"

definition login_try :: "attempt \<Rightarrow> (string \<times> string) list io" where
  "login_try a =
     io_bind (await Launch (launch_reply a)) (\<lambda>_.
     io_bind (await NewPage (newPage_reply a)) (\<lambda>_.
     io_bind (emit (LogInfo ''Opening login page...'')) (\<lambda>_.
     io_bind (await GotoLogin (goto_login_reply a)) (\<lambda>_.
     io_bind (emit (LogInfo ''Waiting 5 sec before scanning form...'')) (\<lambda>_.
     io_bind (emit (Wait 5000)) (\<lambda>_.
     io_bind (await ScanInputs (inputs_reply a)) (\<lambda>inputs.
     case scan_inputs 0 inputs None None of
       (Some emailField, Some passField) \<Rightarrow>
         io_bind (emit (LogInfo ''Email & Password fields detected! Auto filling...'')) (\<lambda>_.
         io_bind (await (TypeUsername emailField) (type_email_reply a)) (\<lambda>_.
         io_bind (await (TypePassword passField) (type_pass_reply a)) (\<lambda>_.
         login_submit a)))
     | _ \<Rightarrow> throw (Error ''Could not detect email or password field!'' None))))))))"

text \<open>
  The \<^verbatim>\<open>catch\<close> block up to the test of the attempt count: the variable \<open>browser\<close> is set
  exactly when the launch succeeded, and then the browser is closed.
\<close>

definition browser_set :: "attempt \<Rightarrow> bool" where
  "browser_set a = (case launch_reply a of Inl e \<Rightarrow> False | Inr _ \<Rightarrow> True)"

definition login_catch :: "attempt \<Rightarrow> nat \<Rightarrow> exn \<Rightarrow> unit io" where
  "login_catch a attempt err =
     io_bind (emit (LogError (''Login attempt '' @ show_nat attempt @ '' failed: '' @ message err))) (\<lambda>_.
     if browser_set a then await CloseBrowser (close_reply a) else ret ())"

text \<open>
  The loop \<^verbatim>\<open>while (attempt < maxRetries)\<close>; \<open>attempts i\<close> is what the browser answers
  during the attempt that starts with \<open>attempt = i\<close>. The result is the session (its
  cookies), \<open>None\<close> for \<^verbatim>\<open>null\<close>, or the error of a failing \<^verbatim>\<open>browser.close()\<close>, which leaves
  the function.
\<close>

function login_loop :: "(nat \<Rightarrow> attempt) \<Rightarrow> nat \<Rightarrow> nat \<Rightarrow> (string \<times> string) list option io" where
  "login_loop attempts maxRetries attempt =
     (if attempt < maxRetries
      then (case login_try (attempts attempt) of
              (tr, Inr cookies) \<Rightarrow> (tr, Inr (Some cookies))
            | (tr, Inl err) \<Rightarrow>
                (case login_catch (attempts attempt) (attempt + 1) err of
                   (tr', Inl err') \<Rightarrow> (tr @ tr', Inl err')
                 | (tr', Inr _) \<Rightarrow>
                     if attempt + 1 \<ge> maxRetries then (tr @ tr', Inr None)
                     else (case login_loop attempts maxRetries (attempt + 1) of
                             (tr'', r) \<Rightarrow> (tr @ tr' @ [LogInfo ''Retrying login...''] @ tr'', r))))
      else ([], Inr None))"
  by pat_completeness auto
termination
  by (relation "measure (\<lambda>(attempts, maxRetries, attempt). maxRetries - attempt)") auto

declare login_loop.simps [simp del]

definition loginToDashboard :: "(nat \<Rightarrow> attempt) \<Rightarrow> nat \<Rightarrow> (string \<times> string) list option io" where
  "loginToDashboard attempts maxRetries = login_loop attempts maxRetries 0"

text \<open>
  An attempt in which the fields are not detected: the page opens, the inputs are read, and
  the scan does not find both an email field and a password field.
\<close>

definition fields_not_detected :: "attempt \<Rightarrow> bool" where
  "fields_not_detected a =
     (launch_reply a = Inr () \<and> newPage_reply a = Inr () \<and> goto_login_reply a = Inr () \<and>
      (case inputs_reply a of
         Inl e \<Rightarrow> False
       | Inr inputs \<Rightarrow>
           (case scan_inputs 0 inputs None None of
              (Some emailField, Some passField) \<Rightarrow> False
            | _ \<Rightarrow> True)))"

fun is_launch :: "action \<Rightarrow> bool" where
  "is_launch Launch = True"
| "is_launch a = False"

fun is_close :: "action \<Rightarrow> bool" where
  "is_close CloseBrowser = True"
| "is_close a = False"

text \<open>A login page with a single text input, neither an email nor a password field.\<close>

definition blank_page :: attempt where
  "blank_page =
     \<lparr>launch_reply = Inr (), newPage_reply = Inr (), goto_login_reply = Inr (),
      inputs_reply = Inr [\<lparr>attr_type = Some ''text'', attr_placeholder = Some ''Search'',
                           attr_name = Some ''q'', attr_id = None\<rparr>],
      type_email_reply = Inr (), type_pass_reply = Inr (),
      submit_reply = Inr True, signin_reply = Inr 0, click_reply = Inr (),
      url = ''https://www.orangecarrier.com/login'',
      content_reply = Inr ''<html></html>'',
      goto_live_reply = Inr (), cookies_reply = Inr [], close_reply = Inr ()\<rparr>"

text \<open>The same page in a browser whose \<^verbatim>\<open>close()\<close> rejects, on every attempt.\<close>

definition close_fails_page :: attempt where
  "close_fails_page = blank_page\<lparr>close_reply := Inl (Error ''Protocol error: Target closed'' None)\<rparr>"

definition close_fails_attempts :: "nat \<Rightarrow> attempt" where
  "close_fails_attempts i = close_fails_page"

section \<open>Properties\<close>

subsection \<open>Trimming and masking\<close>

lemma digit_not_space: "is_digit c \<Longrightarrow> \<not> is_space c"
  by (auto simp: is_digit_def is_space_def)

lemma trim_id: 
  assumes "s = [] \<or> (\<not> is_space (hd s) \<and> \<not> is_space (last s))"
  shows "trim s = s"
proof (cases s)
  case Nil then show ?thesis by (simp add: trim_def)
next
  case (Cons c cs)
  with assms have h: "\<not> is_space (hd s)" and l: "\<not> is_space (last s)" by auto
  have 1: "dropWhile is_space s = s" using h Cons by simp
  have "rev s \<noteq> []" using Cons by simp
  moreover have "hd (rev s) = last s" using Cons by (simp add: hd_rev)
  ultimately have 2: "dropWhile is_space (rev s) = rev s" using l by (simp add: dropWhile_eq_self_iff)
  show ?thesis by (simp add: trim_def 1 2)
qed

lemma trim_ends:
  "trim s = [] \<or> (\<not> is_space (hd (trim s)) \<and> \<not> is_space (last (trim s)))"
proof (cases "trim s = []")
  case True then show ?thesis by simp
next
  case False
  let ?a = "dropWhile is_space s"
  let ?b = "dropWhile is_space (rev ?a)"
  have t: "trim s = rev ?b" by (simp add: trim_def)
  have bne: "?b \<noteq> []" using False t by simp
  then have hb: "\<not> is_space (hd ?b)" by (metis hd_dropWhile)
  have l: "last (trim s) = hd ?b" using bne t by (simp add: last_rev)
  have ane: "?a \<noteq> []"
  proof
    assume "?a = []"
    then have "?b = []" by (auto dest: set_dropWhileD)
    with bne show False by simp
  qed
  then have ha: "\<not> is_space (hd ?a)" by (metis hd_dropWhile)
  obtain zs where zs: "rev ?a = zs @ ?b" by (metis takeWhile_dropWhile_id)
  then have "?a = rev ?b @ rev zs" by (metis rev_append rev_rev_ident)
  then have "hd ?a = hd (rev ?b)" using bne by (metis hd_append2 rev_is_Nil_conv)
  then have "\<not> is_space (hd (trim s))" using ha t by simp
  then show ?thesis using hb l by simp
qed

lemma trim_trim: "trim (trim s) = trim s"
  by (rule trim_id) (rule trim_ends)

text \<open>
  Claim C8. For every numeric string (digits only) of length greater than 7, masking returns
  the first 3 characters, then three asterisks, then the last 4 characters; for every numeric
  string of length at most 7, masking returns the string unchanged.
\<close>

theorem maskNumber_numeric:
  assumes "list_all is_digit s"
  shows "(length s > 7 \<longrightarrow> maskNumber s = take 3 s @ ''***'' @ drop (length s - 4) s) \<and>
         (length s \<le> 7 \<longrightarrow> maskNumber s = s)"
proof -
  have "s = [] \<or> (\<not> is_space (hd s) \<and> \<not> is_space (last s))"
    using assms by (cases s) (auto simp: list_all_iff digit_not_space)
  then have "trim s = s" by (rule trim_id)
  then show ?thesis by (simp add: maskNumber_def substring_def substring_from_def)
qed

theorem maskNumber_numeric_witness:
  "list_all is_digit ''15551234567'' \<and> 7 < length ''15551234567'' \<and>
   maskNumber ''15551234567'' = ''155***4567'' \<and>
   list_all is_digit ''1234567'' \<and> length ''1234567'' \<le> 7 \<and>
   maskNumber ''1234567'' = ''1234567''"
proof -
  have long: "list_all is_digit ''15551234567''" by (simp add: is_digit_def)
  have short: "list_all is_digit ''1234567''" by (simp add: is_digit_def)
  show ?thesis
    using long short maskNumber_numeric [OF long] maskNumber_numeric [OF short] by simp
qed

text \<open>
  Claim C9. Masking is idempotent: for every input string \<open>s\<close>, masking the masked form of
  \<open>s\<close> gives the masked form of \<open>s\<close>. The masked form of a long trimmed string has 10
  characters, starts and ends with characters that are not white space, and keeps its first
  3 and last 4 characters; a short string is returned trimmed.
\<close>

theorem maskNumber_idempotent: "maskNumber (maskNumber s) = maskNumber s"
proof (cases "length (trim s) > 7")
  case False
  then show ?thesis by (simp add: maskNumber_def trim_trim)
next
  case True
  let ?t = "trim s"
  let ?r = "take 3 ?t @ ''***'' @ drop (length ?t - 4) ?t"
  have m: "maskNumber s = ?r" using True by (simp add: maskNumber_def Let_def substring_def substring_from_def)
  have tne: "?t \<noteq> []" using True by auto
  with trim_ends[of s] have h: "\<not> is_space (hd ?t)" and l: "\<not> is_space (last ?t)" by auto
  have hr: "hd ?r = hd ?t" using True tne by (cases ?t) auto
  have dne: "drop (length ?t - 4) ?t \<noteq> []" using True by simp
  have lr: "last ?r = last ?t" using dne True by simp
  define r where "r = ?r"
  have tr: "trim r = r" unfolding r_def by (rule trim_id) (simp only: hr lr h l, simp)
  have len: "length r = 10" unfolding r_def using True by simp
  have t3: "take 3 r = take 3 ?t" unfolding r_def using True by simp
  have d6: "drop 6 r = drop (length ?t - 4) ?t" unfolding r_def using True by simp
  have "maskNumber r = take 3 r @ ''***'' @ drop 6 r"
    by (simp add: maskNumber_def Let_def tr len substring_def substring_from_def)
  then have "maskNumber r = ?r" by (simp only: t3 d6)
  then have "maskNumber r = r" by (simp only: r_def)
  then show ?thesis by (simp only: m r_def)
qed

subsection \<open>Country extraction\<close>

lemma split_acc_ne: "split_acc sep cur s \<noteq> []"
  by (induction s arbitrary: cur) auto

lemma join_Cons: "ps \<noteq> [] \<Longrightarrow> join sep (p # ps) = p @ sep @ join sep ps"
  by (cases ps) auto

lemma join_split_acc: "join [sep] (split_acc sep cur s) = cur @ s"
  by (induction s arbitrary: cur) (auto simp: join_Cons split_acc_ne)

lemma join_split: "join [sep] (split sep s) = s"
  by (simp add: split_def join_split_acc)

lemma split_ne: "split sep s \<noteq> []"
  by (simp add: split_def split_acc_ne)

lemma join_append: "pre \<noteq> [] \<Longrightarrow> rest \<noteq> [] \<Longrightarrow> join sep (pre @ rest) = join sep pre @ sep @ join sep rest"
proof (induction pre)
  case Nil then show ?case by simp
next
  case (Cons p pre)
  show ?case
  proof (cases pre)
    case Nil
    then show ?thesis using Cons.prems by (simp add: join_Cons)
  next
    case (Cons q qs)
    then have "join sep (pre @ rest) = join sep pre @ sep @ join sep rest"
      using Cons.IH Cons.prems by simp
    then show ?thesis using Cons by (simp add: join_Cons)
  qed
qed

lemma collect_parts_takeWhile: "collect_parts acc ps = acc @ takeWhile (Not \<circ> stop_part) ps"
  by (induction ps arbitrary: acc) auto

lemma extract_alt: "extractCountryFromTermination text =
  (let cp = takeWhile (Not \<circ> stop_part) (split (CHR '' '') text) in if cp \<noteq> [] then join '' '' cp else text)"
  by (simp add: extractCountryFromTermination_def collect_parts_takeWhile Let_def)

lemmas country_eval =
  extractCountryFromTermination_def split_def stop_part_def toUpperCase_def upper_char_def
  lower_letters_def upper_letters_def is_digit_def

text \<open>
  Claim C6, as stated: for every text the result is the leading parts before the first
  stopping part, joined by single spaces, and it is the whole text exactly when no part
  stops. The text \<^verbatim>\<open>MOBILE 1\<close> refutes it: its first part stops, nothing is collected, and
  the function falls back to the whole text, which is neither the empty join nor a text
  without a stopping part.
\<close>

theorem extractCountry_first_part_stops_counterexample:
  "extractCountryFromTermination ''MOBILE 1'' = ''MOBILE 1'' \<and>
   list_ex stop_part (split (CHR '' '') ''MOBILE 1'') \<and>
   join '' '' (takeWhile (Not \<circ> stop_part) (split (CHR '' '') ''MOBILE 1'')) = [] \<and>
   extractCountryFromTermination ''MOBILE 1'' \<noteq>
     join '' '' (takeWhile (Not \<circ> stop_part) (split (CHR '' '') ''MOBILE 1''))"
  by (simp add: country_eval)

text \<open>
  Claim C6, amended. The parts of the text are what splitting at every single space gives.
  When the first part is not a stopping part (MOBILE or FIXED in any case, or holding a
  digit), country extraction returns the parts before the first stopping part joined by
  single spaces. It returns the entire text exactly when no part stops or the first part
  stops. The text \<^verbatim>\<open>UNITED STATES MOBILE 123\<close> gives \<^verbatim>\<open>UNITED STATES\<close> and \<^verbatim>\<open>FRANCE\<close> gives
  \<^verbatim>\<open>FRANCE\<close>.
\<close>

theorem extractCountry_amended:
  "(\<not> stop_part (hd (split (CHR '' '') text)) \<longrightarrow>
      extractCountryFromTermination text =
        join '' '' (takeWhile (Not \<circ> stop_part) (split (CHR '' '') text))) \<and>
   (extractCountryFromTermination text = text \<longleftrightarrow>
      (\<not> list_ex stop_part (split (CHR '' '') text) \<or> stop_part (hd (split (CHR '' '') text)))) \<and>
   split (CHR '' '') ''UNITED STATES MOBILE 123'' = [''UNITED'', ''STATES'', ''MOBILE'', ''123''] \<and>
   extractCountryFromTermination ''UNITED STATES MOBILE 123'' = ''UNITED STATES'' \<and>
   split (CHR '' '') ''FRANCE'' = [''FRANCE''] \<and>
   extractCountryFromTermination ''FRANCE'' = ''FRANCE''"
proof -
  define parts where "parts = split (CHR '' '') text"
  define cp where "cp = takeWhile (Not \<circ> stop_part) parts"
  have ne: "parts \<noteq> []" by (simp add: parts_def split_ne)
  have jt: "join '' '' parts = text" unfolding parts_def by (rule join_split)
  have ex: "extractCountryFromTermination text = (if cp \<noteq> [] then join '' '' cp else text)"
    by (simp add: extract_alt cp_def parts_def Let_def)
  have A: "\<not> stop_part (hd parts) \<Longrightarrow> extractCountryFromTermination text = join '' '' cp"
  proof -
    assume "\<not> stop_part (hd parts)"
    then have "cp \<noteq> []" using ne by (cases parts) (auto simp: cp_def)
    then show ?thesis by (simp add: ex)
  qed
  have B1: "stop_part (hd parts) \<Longrightarrow> extractCountryFromTermination text = text"
  proof -
    assume "stop_part (hd parts)"
    then have "cp = []" using ne by (cases parts) (auto simp: cp_def)
    then show ?thesis by (simp add: ex)
  qed
  have B2: "\<not> list_ex stop_part parts \<Longrightarrow> extractCountryFromTermination text = text"
  proof -
    assume "\<not> list_ex stop_part parts"
    then have "cp = parts" by (simp add: cp_def list_ex_iff)
    then show ?thesis using jt by (simp add: ex)
  qed
  have B3: "list_ex stop_part parts \<Longrightarrow> \<not> stop_part (hd parts) \<Longrightarrow> extractCountryFromTermination text \<noteq> text"
  proof -
    assume e: "list_ex stop_part parts" and h: "\<not> stop_part (hd parts)"
    define rest where "rest = dropWhile (Not \<circ> stop_part) parts"
    have p: "parts = cp @ rest" by (simp add: cp_def rest_def)
    have c: "cp \<noteq> []" using h ne by (cases parts) (auto simp: cp_def)
    have r: "rest \<noteq> []" using e by (auto simp: rest_def list_ex_iff)
    have "text = join '' '' cp @ '' '' @ join '' '' rest"
      using jt p join_append[OF c r, of "'' ''"] by simp
    then have "length text > length (join '' '' cp)" by (metis length_append length_Cons less_add_Suc1 add_Suc_right list.size(3) append_Cons append_Nil)
    then show ?thesis using c by (auto simp: ex)
  qed
  have main: "(\<not> stop_part (hd parts) \<longrightarrow> extractCountryFromTermination text = join '' '' cp) \<and>
      (extractCountryFromTermination text = text \<longleftrightarrow>
         (\<not> list_ex stop_part parts \<or> stop_part (hd parts)))"
    using A B1 B2 B3 by blast
  have ex1: "extractCountryFromTermination ''UNITED STATES MOBILE 123'' = ''UNITED STATES''"
    by (simp add: country_eval)
  have ex2: "extractCountryFromTermination ''FRANCE'' = ''FRANCE''"
    by (simp add: country_eval)
  have sp1: "split (CHR '' '') ''UNITED STATES MOBILE 123'' = [''UNITED'', ''STATES'', ''MOBILE'', ''123'']"
    by (simp add: split_def)
  have sp2: "split (CHR '' '') ''FRANCE'' = [''FRANCE'']"
    by (simp add: split_def)
  show ?thesis using main ex1 ex2 sp1 sp2 unfolding parts_def cp_def by blast
qed

theorem extractCountry_amended_witness:
  "\<not> stop_part (hd (split (CHR '' '') ''USA MOBILE 1'')) \<and>
   list_ex stop_part (split (CHR '' '') ''USA MOBILE 1'') \<and>
   extractCountryFromTermination ''USA MOBILE 1'' = ''USA'' \<and>
   extractCountryFromTermination ''USA MOBILE 1'' \<noteq> ''USA MOBILE 1'' \<and>
   stop_part (hd (split (CHR '' '') ''FIXED 2'')) \<and>
   extractCountryFromTermination ''FIXED 2'' = ''FIXED 2''"
proof -
  have h1: "\<not> stop_part (hd (split (CHR '' '') ''USA MOBILE 1''))"
    by (simp add: country_eval)
  have e1: "list_ex stop_part (split (CHR '' '') ''USA MOBILE 1'')"
    by (simp add: country_eval)
  have j1: "join '' '' (takeWhile (Not \<circ> stop_part) (split (CHR '' '') ''USA MOBILE 1'')) = ''USA''"
    by (simp add: country_eval)
  have h2: "stop_part (hd (split (CHR '' '') ''FIXED 2''))"
    by (simp add: country_eval)
  show ?thesis
    using h1 e1 j1 h2 extractCountry_amended [of "''USA MOBILE 1''"]
      extractCountry_amended [of "''FIXED 2''"]
    by simp
qed

subsection \<open>Deduplication in the monitoring loop\<close>

lemma started_ids_append: "started_ids (a @ b) = started_ids a @ started_ids b"
  by (induction a rule: started_ids.induct) auto

lemma distinct_count_le: "distinct xs \<Longrightarrow> count_list xs k \<le> 1"
  by (induction xs) auto

lemma run_inv_Nil: "run_inv pc pc []"
  by (simp add: run_inv_def)

lemma run_inv_quiet: "started_ids evs = [] \<Longrightarrow> run_inv pc pc evs"
proof -
  assume a: "started_ids evs = []"
  have "\<And>pre k d post. evs \<noteq> pre @ Started k d # post"
  proof
    fix pre k d post assume "evs = pre @ Started k d # post"
    then have "started_ids evs = started_ids pre @ k # started_ids post"
      by (simp add: started_ids_append)
    with a show False by simp
  qed
  then show ?thesis using a by (simp add: run_inv_def)
qed

lemma run_inv_append:
  assumes "run_inv pc pc1 a" and "run_inv pc1 pc2 b"
  shows "run_inv pc pc2 (a @ b)"
proof -
  have d: "distinct (started_ids (a @ b))"
    using assms by (auto simp: run_inv_def started_ids_append)
  have i: "set (started_ids (a @ b)) \<inter> pc = {}"
    using assms by (auto simp: run_inv_def started_ids_append)
  have u: "pc2 = pc \<union> set (started_ids (a @ b))"
    using assms by (auto simp: run_inv_def started_ids_append)
  have o: "pre \<noteq> [] \<and> last pre = Added k" if eq: "a @ b = pre @ Started k d # post" for pre k d post
  proof -
    from eq obtain us where "(a = pre @ us \<and> us @ b = Started k d # post) \<or> (a @ us = pre \<and> b = us @ Started k d # post)"
      by (auto simp: append_eq_append_conv2)
    then show ?thesis
    proof
      assume h: "a = pre @ us \<and> us @ b = Started k d # post"
      show ?thesis
      proof (cases us)
        case Nil
        with h have "b = [] @ Started k d # post" by simp
        with assms(2) show ?thesis unfolding run_inv_def by blast
      next
        case (Cons u us')
        with h have "a = pre @ Started k d # us'" by simp
        with assms(1) show ?thesis unfolding run_inv_def by blast
      qed
    next
      assume h: "a @ us = pre \<and> b = us @ Started k d # post"
      with assms(2) have "us \<noteq> [] \<and> last us = Added k" unfolding run_inv_def by blast
      with h show ?thesis by auto
    qed
  qed
  show ?thesis unfolding run_inv_def using d i u o by blast
qed

lemma process_row_cases:
  "process_row pc r = (pc, []) \<or>
   (\<exists>k d. k \<notin> pc \<and> process_row pc r = (insert k pc, [Added k, Started k d]))"
  by (auto simp: process_row_def Let_def split: option.splits)

lemma run_inv_pair: "k \<notin> pc \<Longrightarrow> run_inv pc (insert k pc) [Added k, Started k d]"
  by (auto simp: run_inv_def Cons_eq_append_conv)

lemma process_row_inv: "process_row pc r = (pc', evs) \<Longrightarrow> run_inv pc pc' evs"
  using process_row_cases[of pc r] by (auto simp: run_inv_Nil run_inv_pair)

lemma each_row_inv: "each_row pc rs = (pc', evs) \<Longrightarrow> run_inv pc pc' evs"
proof (induction rs arbitrary: pc pc' evs)
  case Nil then show ?case by (simp add: run_inv_Nil)
next
  case (Cons r rs)
  obtain p1 e1 where 1: "process_row pc r = (p1, e1)" by (cases "process_row pc r")
  obtain p2 e2 where 2: "each_row p1 rs = (p2, e2)" by (cases "each_row p1 rs")
  from Cons.prems 1 2 have "pc' = p2" "evs = e1 @ e2" by auto
  then show ?case using process_row_inv[OF 1] Cons.IH[OF 2] by (simp add: run_inv_append)
qed

lemma loop_iteration_inv: "loop_iteration pc snap = (pc', evs) \<Longrightarrow> run_inv pc pc' evs"
proof (cases snap)
  case (Inl e)
  assume "loop_iteration pc snap = (pc', evs)"
  with Inl show ?thesis by (auto simp: loop_iteration_def intro: run_inv_quiet)
next
  case (Inr rows)
  assume a: "loop_iteration pc snap = (pc', evs)"
  obtain p1 e1 where 1: "each_row pc rows = (p1, e1)" by (cases "each_row pc rows")
  with a Inr have "pc' = p1" "evs = e1 @ [Sleep 100]" by (auto simp: loop_iteration_def)
  moreover have "run_inv p1 p1 [Sleep 100]" by (rule run_inv_quiet) simp
  ultimately show ?thesis using each_row_inv[OF 1] by (simp add: run_inv_append)
qed

lemma monitoring_loop_inv: "monitoring_loop pc snaps = (pc', evs) \<Longrightarrow> run_inv pc pc' evs"
proof (induction snaps arbitrary: pc pc' evs)
  case Nil then show ?case by (simp add: run_inv_Nil)
next
  case (Cons s snaps)
  obtain p1 e1 where 1: "loop_iteration pc s = (p1, e1)" by (cases "loop_iteration pc s")
  obtain p2 e2 where 2: "monitoring_loop p1 snaps = (p2, e2)" by (cases "monitoring_loop p1 snaps")
  from Cons.prems 1 2 have "pc' = p2" "evs = e1 @ e2" by auto
  then show ?case using loop_iteration_inv[OF 1] Cons.IH[OF 2] by (simp add: run_inv_append)
qed

text \<open>
  Claim C1. For every call id \<open>k\<close> (the CLI number, an underscore and the uuid) and every
  sequence of page snapshots, over any number of iterations of the loop the notification is
  started for \<open>k\<close> at most once, and \<open>k\<close> is added to the set of processed calls before it
  starts: the addition is the event right before the call that sends the alert.
\<close>

theorem pipeline_started_at_most_once:
  "count_list (started_ids (snd (monitor snapshots))) k \<le> 1 \<and>
   (\<forall>pre d post. snd (monitor snapshots) = pre @ Started k d # post \<longrightarrow>
        pre \<noteq> [] \<and> last pre = Added k)"
proof -
  obtain pc' evs where m: "monitoring_loop {} snapshots = (pc', evs)"
    by (cases "monitoring_loop {} snapshots")
  then have inv: "run_inv {} pc' evs" by (rule monitoring_loop_inv)
  then have "distinct (started_ids evs)" by (simp add: run_inv_def)
  then have "count_list (started_ids evs) k \<le> 1" by (rule distinct_count_le)
  moreover have "\<forall>pre d post. evs = pre @ Started k d # post \<longrightarrow> pre \<noteq> [] \<and> last pre = Added k"
    using inv unfolding run_inv_def by blast
  ultimately show ?thesis using m by (simp add: monitor_def)
qed

lemmas row_eval =
  process_row_def play_buttons_def match_play_here_def quoted_arg_def is_quote_def is_space_def trim_def
  audio_url_def country_eval

lemma usa_row_first:
  "process_row {} usa_row = ({''CLI1_uuid9''}, [Added ''CLI1_uuid9'', Started ''CLI1_uuid9'' usa_call])"
  by (simp add: usa_row_def usa_call_def row_eval Let_def)

lemma usa_row_again:
  "process_row {''CLI1_uuid9''} usa_row = ({''CLI1_uuid9''}, [])"
  by (simp add: usa_row_def row_eval Let_def)

lemma usa_twice:
  "monitor [Inr [usa_row], Inr [usa_row]] =
     ({''CLI1_uuid9''},
      [Added ''CLI1_uuid9'', Started ''CLI1_uuid9'' usa_call, Sleep 100, Sleep 100])"
  by (simp add: monitor_def loop_iteration_def usa_row_first usa_row_again)

theorem pipeline_started_at_most_once_witness:
  "snd (monitor [Inr [usa_row], Inr [usa_row]]) =
     [Added ''CLI1_uuid9''] @ Started ''CLI1_uuid9'' usa_call # [Sleep 100, Sleep 100] \<and>
   count_list (started_ids (snd (monitor [Inr [usa_row], Inr [usa_row]]))) ''CLI1_uuid9'' = 1 \<and>
   last [Added ''CLI1_uuid9''] = Added ''CLI1_uuid9''"
proof -
  have run: "snd (monitor [Inr [usa_row], Inr [usa_row]]) =
      [Added ''CLI1_uuid9''] @ Started ''CLI1_uuid9'' usa_call # [Sleep 100, Sleep 100]"
    by (simp add: usa_twice)
  have once: "count_list (started_ids (snd (monitor [Inr [usa_row], Inr [usa_row]]))) ''CLI1_uuid9'' = 1"
    by (simp add: usa_twice)
  show ?thesis
    using run once
      pipeline_started_at_most_once [of "[Inr [usa_row], Inr [usa_row]]" "''CLI1_uuid9''"]
    by simp
qed

subsection \<open>Extraction of a call from a row\<close>

text \<open>
  Claim C7. For every row that yields a call, the call id is the CLI number, an underscore
  and the uuid, and the audio URL is a function of did and uuid alone; a row with two or
  fewer columns, without a Play button, or whose Play button does not match the
  two-argument form yields nothing; the single row \<^verbatim>\<open>USA MOBILE 1\<close>, \<^verbatim>\<open>15551234567\<close>,
  \<^verbatim>\<open>CLI1\<close> with the action \<^verbatim>\<open>Play('did9','uuid9')\<close> yields exactly one call, with country
  \<^verbatim>\<open>USA\<close>, number \<^verbatim>\<open>15551234567\<close>, CLI number \<^verbatim>\<open>CLI1\<close> and id \<^verbatim>\<open>CLI1_uuid9\<close>.
\<close>

theorem row_extraction:
  "(length (columns r) \<le> 2 \<longrightarrow> process_row pc r = (pc, [])) \<and>
   (play_buttons r = [] \<longrightarrow>
      process_row pc r = (pc, [])) \<and>
   (\<forall>onclick rest. play_buttons r = onclick # rest \<longrightarrow>
      match_play onclick = None \<longrightarrow> process_row pc r = (pc, [])) \<and>
   (Started k d \<in> set (snd (process_row pc r)) \<longrightarrow>
      (\<exists>onclick rest did uuid.
         2 < length (columns r) \<and>
         play_buttons r = onclick # rest \<and>
         match_play onclick = Some (did, uuid) \<and>
         k = cliNumber d @ ''_'' @ uuid \<and>
         k \<notin> pc \<and>
         snd (process_row pc r) = [Added k, Started k d] \<and>
         d = \<lparr>country = extractCountryFromTermination (trim (columns r ! 0)),
              number = trim (columns r ! 1),
              cliNumber = trim (columns r ! 2),
              audioUrl = audio_url did uuid\<rparr>)) \<and>
   each_row {} [usa_row] = ({''CLI1_uuid9''}, [Added ''CLI1_uuid9'', Started ''CLI1_uuid9'' usa_call])"
proof -
  let ?pb = "play_buttons r"
  have a: "length (columns r) \<le> 2 \<longrightarrow> process_row pc r = (pc, [])"
    by (simp add: process_row_def)
  have b: "?pb = [] \<longrightarrow> process_row pc r = (pc, [])"
    by (simp add: process_row_def Let_def)
  have c: "\<forall>onclick rest. ?pb = onclick # rest \<longrightarrow> match_play onclick = None \<longrightarrow> process_row pc r = (pc, [])"
    by (auto simp: process_row_def Let_def)
  have d: "Started k d \<in> set (snd (process_row pc r)) \<longrightarrow>
      (\<exists>onclick rest did uuid.
         2 < length (columns r) \<and> ?pb = onclick # rest \<and>
         match_play onclick = Some (did, uuid) \<and>
         k = cliNumber d @ ''_'' @ uuid \<and> k \<notin> pc \<and>
         snd (process_row pc r) = [Added k, Started k d] \<and>
         d = \<lparr>country = extractCountryFromTermination (trim (columns r ! 0)),
              number = trim (columns r ! 1),
              cliNumber = trim (columns r ! 2),
              audioUrl = audio_url did uuid\<rparr>)"
  proof
    assume s: "Started k d \<in> set (snd (process_row pc r))"
    then have len: "2 < length (columns r)" by (auto simp: process_row_def split: if_splits)
    from s len have ne: "?pb \<noteq> []" by (auto simp: process_row_def Let_def split: if_splits)
    then obtain onclick rest where pb: "?pb = onclick # rest" by (cases ?pb) auto
    from s len pb obtain did uuid where m: "match_play onclick = Some (did, uuid)"
      by (cases "match_play onclick") (auto simp: process_row_def Let_def)
    from s len pb m show "\<exists>onclick rest did uuid.
         2 < length (columns r) \<and> ?pb = onclick # rest \<and>
         match_play onclick = Some (did, uuid) \<and>
         k = cliNumber d @ ''_'' @ uuid \<and> k \<notin> pc \<and>
         snd (process_row pc r) = [Added k, Started k d] \<and>
         d = \<lparr>country = extractCountryFromTermination (trim (columns r ! 0)),
              number = trim (columns r ! 1),
              cliNumber = trim (columns r ! 2),
              audioUrl = audio_url did uuid\<rparr>"
      by (auto simp: process_row_def Let_def split: if_splits)
  qed
  have e: "each_row {} [usa_row] = ({''CLI1_uuid9''}, [Added ''CLI1_uuid9'', Started ''CLI1_uuid9'' usa_call])"
    by (simp add: usa_row_first)
  show ?thesis using a b c d e by blast
qed

theorem row_extraction_witness:
  "length (columns \<lparr>columns = [''USA MOBILE 1'', ''15551234567''],
                     buttons = [''Play('did9','uuid9')'']\<rparr>) \<le> 2 \<and>
   process_row {} \<lparr>columns = [''USA MOBILE 1'', ''15551234567''],
                   buttons = [''Play('did9','uuid9')'']\<rparr> = ({}, []) \<and>
   play_buttons \<lparr>columns = [''USA MOBILE 1'', ''15551234567'', ''CLI1''], buttons = [''Stop()'']\<rparr> = [] \<and>
   process_row {} \<lparr>columns = [''USA MOBILE 1'', ''15551234567'', ''CLI1''], buttons = [''Stop()'']\<rparr>
     = ({}, []) \<and>
   play_buttons \<lparr>columns = [''USA MOBILE 1'', ''15551234567'', ''CLI1''], buttons = [''Play('did9')'']\<rparr>
     = [''Play('did9')''] \<and>
   match_play ''Play('did9')'' = None \<and>
   process_row {} \<lparr>columns = [''USA MOBILE 1'', ''15551234567'', ''CLI1''], buttons = [''Play('did9')'']\<rparr>
     = ({}, []) \<and>
   Started ''CLI1_uuid9'' usa_call \<in> set (snd (process_row {} usa_row)) \<and>
   play_buttons usa_row = [''Play('did9','uuid9')''] \<and>
   match_play ''Play('did9','uuid9')'' = Some (''did9'', ''uuid9'') \<and>
   cliNumber usa_call @ ''_'' @ ''uuid9'' = ''CLI1_uuid9'' \<and>
   audioUrl usa_call = audio_url ''did9'' ''uuid9''"
proof -
  let ?short = "\<lparr>columns = [''USA MOBILE 1'', ''15551234567''],
                 buttons = [''Play('did9','uuid9')'']\<rparr>"
  let ?nobutton = "\<lparr>columns = [''USA MOBILE 1'', ''15551234567'', ''CLI1''], buttons = [''Stop()'']\<rparr>"
  let ?onearg = "\<lparr>columns = [''USA MOBILE 1'', ''15551234567'', ''CLI1''], buttons = [''Play('did9')'']\<rparr>"
  have h1: "length (columns ?short) \<le> 2" by simp
  have h2: "play_buttons ?nobutton = []" by (simp add: play_buttons_def)
  have h3: "play_buttons ?onearg = [''Play('did9')'']" by (simp add: play_buttons_def)
  have h4: "match_play ''Play('did9')'' = None" by (simp add: row_eval)
  have h5: "Started ''CLI1_uuid9'' usa_call \<in> set (snd (process_row {} usa_row))"
    by (simp add: usa_row_first)
  have e1: "play_buttons usa_row = [''Play('did9','uuid9')'']"
    by (simp add: play_buttons_def usa_row_def)
  have e2: "match_play ''Play('did9','uuid9')'' = Some (''did9'', ''uuid9'')"
    by (simp add: row_eval)
  have e3: "cliNumber usa_call @ ''_'' @ ''uuid9'' = ''CLI1_uuid9''"
    by (simp add: usa_call_def)
  have e4: "audioUrl usa_call = audio_url ''did9'' ''uuid9''"
    by (simp add: usa_call_def audio_url_def)
  show ?thesis
    using h1 h2 h3 h4 h5 e1 e2 e3 e4
      row_extraction [of ?short "{}"] row_extraction [of ?nobutton "{}"]
      row_extraction [of ?onearg "{}"]
      row_extraction [where r = usa_row and pc = "{}" and k = "''CLI1_uuid9''" and d = usa_call]
    by simp
qed

subsection \<open>Computations\<close>

lemma io_bind_Inl [simp]: "io_bind (tr, Inl e) f = (tr, Inl e)"
  by (simp add: io_bind_def)

lemma io_bind_Inr [simp]: "io_bind (tr, Inr v) f = (tr @ fst (f v), snd (f v))"
  by (simp add: io_bind_def split: prod.splits)

lemma io_catch_Inl [simp]: "io_catch (tr, Inl e) h = (tr @ fst (h e), snd (h e))"
  by (simp add: io_catch_def split: prod.splits)

lemma io_catch_Inr [simp]: "io_catch (tr, Inr v) h = (tr, Inr v)"
  by (simp add: io_catch_def)

lemmas io_defs = ret_def throw_def emit_def await_def

lemma sendInstantNotification_cases:
  "sendInstantNotification T w cd =
     (case sendMessage_reply w of
        Inl e \<Rightarrow> ([PostSendMessage (notice_of T cd),
                   LogError (''Failed to send instant notification: '' @ error_text e)], Inr Null)
      | Inr NoData \<Rightarrow>
          ([PostSendMessage (notice_of T cd),
            LogError (''Failed to send instant notification: '' @
                      ''Cannot read properties of undefined (reading 'result')'')], Inr Null)
      | Inr NoResult \<Rightarrow>
          ([PostSendMessage (notice_of T cd),
            LogError (''Failed to send instant notification: '' @
                      ''Cannot read properties of undefined (reading 'message_id')'')], Inr Null)
      | Inr (Result None) \<Rightarrow>
          ([PostSendMessage (notice_of T cd),
            LogInfo (''Instant notification sent for '' @ cliNumber cd @ '' (Message ID: '' @
                     show_id Undefined @ '')'')], Inr Undefined)
      | Inr (Result (Some n)) \<Rightarrow>
          ([PostSendMessage (notice_of T cd),
            LogInfo (''Instant notification sent for '' @ cliNumber cd @ '' (Message ID: '' @
                     show_id (MessageId n) @ '')'')], Inr (MessageId n)))"
  by (simp add: sendInstantNotification_def read_message_id_def io_defs error_text_def
      split: sum.splits reply_body.splits option.splits)

lemma alert_trace_quiet: "\<not> list_ex after_alert (fst (sendInstantNotification T w cd))"
  by (simp add: sendInstantNotification_cases split: sum.splits reply_body.splits option.splits)

lemma worker_try_conversion_fails:
  assumes "audio_reply w = Inr data" and "writeFile_reply w = Inr ()" and "ffmpeg_reply w = Inl err"
  shows "processCallWorker_try T w cd cookies mid =
     ([HttpGet (audioUrl cd) (cookie_header cookies),
       WriteFile (wav_path w cd) data,
       LogInfo (''Audio file downloaded (WAV): '' @ wav_name w cd),
       Ffmpeg (wav_path w cd) (mp3_path w cd),
       LogError (''FFmpeg conversion error: '' @ message err)], Inl err)"
  using assms by (simp add: processCallWorker_try_def convert_def io_defs Let_def)


lemma worker_conversion_fails:
  assumes "audio_reply w = Inr data" and "writeFile_reply w = Inr ()" and "ffmpeg_reply w = Inl err"
  shows "processCallWorker T w cd cookies mid =
     ([HttpGet (audioUrl cd) (cookie_header cookies),
       WriteFile (wav_path w cd) data,
       LogInfo (''Audio file downloaded (WAV): '' @ wav_name w cd),
       Ffmpeg (wav_path w cd) (mp3_path w cd),
       LogError (''FFmpeg conversion error: '' @ message err),
       LogError (''Error processing call for '' @ cliNumber cd @ '': '' @ message err)], Inr ())"
  by (simp add: processCallWorker_def worker_try_conversion_fails[OF assms] io_defs)

lemma start_notification_cases:
  "start_notification T w cookies cd =
     (case sendInstantNotification T w cd of
        (tr, Inl e) \<Rightarrow> (tr @ [LogError (''Notification failed for '' @ cliNumber cd @ '': '' @ message e)], Inr ())
      | (tr, Inr v) \<Rightarrow>
          if truthy v
          then (tr @ [LogInfo (''New call detected ('' @ cliNumber cd @ ''), scheduling audio after 20s...''),
                      SetTimeout 20000] @ fst (processCallWorker T w cd cookies v), Inr ())
          else (tr, Inr ()))"
proof -
  obtain tr r where s: "sendInstantNotification T w cd = (tr, r)"
    by (cases "sendInstantNotification T w cd")
  have wk: "\<And>v. \<exists>tr'. processCallWorker T w cd cookies v = (tr', Inr ())"
  proof -
    fix v
    obtain a b where t: "processCallWorker_try T w cd cookies v = (a, b)"
      by (cases "processCallWorker_try T w cd cookies v")
    show "\<exists>tr'. processCallWorker T w cd cookies v = (tr', Inr ())"
      by (cases b) (simp_all add: processCallWorker_def t io_defs)
  qed
  show ?thesis
  proof (cases r)
    case (Inl e)
    then show ?thesis by (simp add: start_notification_def s io_defs)
  next
    case (Inr v)
    from wk[of v] obtain tr' where w: "processCallWorker T w cd cookies v = (tr', Inr ())" by blast
    show ?thesis using Inr by (simp add: start_notification_def s w io_defs)
  qed
qed

lemma show_nat_now: "show_nat 1700000000000 = ''1700000000000''"
  by (simp add: show_nat.simps)

lemmas pipeline_eval =
  start_notification_cases sendInstantNotification_cases processCallWorker_def
  processCallWorker_try_def convert_def sendAudioToTelegramGroup_def deleteTelegramMessage_def
  io_defs notice_of_def getCountryFlag_def maskNumber_def substring_def substring_from_def
  trim_def is_space_def toUpperCase_def upper_char_def lower_letters_def upper_letters_def
  wav_name_def wav_path_def mp3_path_def path_join_def basename_def split_def
  cookie_header_def show_id_def truthy_def error_text_def Let_def
  ok_world_def usa_tables_def usa_call_def show_nat_now

lemma audio_fail_run:
  "start_notification usa_tables audio_fail_world [(''sid'', ''abc'')] usa_call =
     ([PostSendMessage
         \<lparr>notice_flag = Flag ''us'', notice_country = ''USA'', notice_number = ''155***4567''\<rparr>,
       LogInfo ''Instant notification sent for CLI1 (Message ID: 42)'',
       LogInfo ''New call detected (CLI1), scheduling audio after 20s...'',
       SetTimeout 20000,
       HttpGet ''https://www.orangecarrier.com/live/calls/sound?did=did9&uuid=uuid9'' ''sid=abc'',
       WriteFile ''/app/call_1700000000000_CLI1.wav'' ''RIFF'',
       LogInfo ''Audio file downloaded (WAV): call_1700000000000_CLI1.wav'',
       Ffmpeg ''/app/call_1700000000000_CLI1.wav'' ''/app/call_1700000000000_CLI1.mp3'',
       LogInfo ''Converted to MP3: call_1700000000000_CLI1.mp3'',
       PostSendAudio
         \<lparr>notice_flag = Flag ''us'', notice_country = ''USA'', notice_number = ''155***4567''\<rparr>
         ''/app/call_1700000000000_CLI1.mp3'',
       LogError ''Failed to send audio file: timeout of 30000ms exceeded'',
       PostDeleteMessage (MessageId 42),
       LogInfo ''Message 42 deleted successfully.'',
       Unlink ''/app/call_1700000000000_CLI1.wav'',
       Unlink ''/app/call_1700000000000_CLI1.mp3'',
       LogInfo ''Temporary files deleted.''],
      Inr ())"
  by (simp add: audio_fail_world_def pipeline_eval show_nat.simps[of 42] show_nat.simps[of 4])

subsection \<open>The alert\<close>

text \<open>
  Claim C10. Sending the alert never raises to its caller: whatever the sink answers,
  \<open>sendInstantNotification\<close> returns a value. It returns the message id of the response when
  the request succeeds and null on every failure, the rejection of the request as well as a
  response that has no result to read the id from.
\<close>

theorem sendInstantNotification_never_raises:
  "(\<exists>tr v. sendInstantNotification T w cd = (tr, Inr v)) \<and>
   (\<forall>e. sendMessage_reply w = Inl e \<longrightarrow> snd (sendInstantNotification T w cd) = Inr Null) \<and>
   (sendMessage_reply w = Inr NoData \<longrightarrow> snd (sendInstantNotification T w cd) = Inr Null) \<and>
   (sendMessage_reply w = Inr NoResult \<longrightarrow> snd (sendInstantNotification T w cd) = Inr Null) \<and>
   (\<forall>n. sendMessage_reply w = Inr (Result (Some n)) \<longrightarrow>
        snd (sendInstantNotification T w cd) = Inr (MessageId n))"
  by (simp add: sendInstantNotification_cases split: sum.splits reply_body.splits option.splits)

theorem sendInstantNotification_never_raises_witness:
  "sendMessage_reply alert_fail_world =
     Inl (Error ''Request failed with status code 400'' (Some ''Bad Request: chat not found'')) \<and>
   snd (sendInstantNotification usa_tables alert_fail_world usa_call) = Inr Null \<and>
   sendMessage_reply (ok_world\<lparr>sendMessage_reply := Inr NoData\<rparr>) = Inr NoData \<and>
   snd (sendInstantNotification usa_tables (ok_world\<lparr>sendMessage_reply := Inr NoData\<rparr>) usa_call)
     = Inr Null \<and>
   sendMessage_reply (ok_world\<lparr>sendMessage_reply := Inr NoResult\<rparr>) = Inr NoResult \<and>
   snd (sendInstantNotification usa_tables (ok_world\<lparr>sendMessage_reply := Inr NoResult\<rparr>) usa_call)
     = Inr Null \<and>
   sendMessage_reply ok_world = Inr (Result (Some 42)) \<and>
   snd (sendInstantNotification usa_tables ok_world usa_call) = Inr (MessageId 42)"
proof -
  have h1: "sendMessage_reply alert_fail_world =
     Inl (Error ''Request failed with status code 400'' (Some ''Bad Request: chat not found''))"
    by (simp add: alert_fail_world_def)
  have h2: "sendMessage_reply (ok_world\<lparr>sendMessage_reply := Inr NoData\<rparr>) = Inr NoData"
    by simp
  have h3: "sendMessage_reply (ok_world\<lparr>sendMessage_reply := Inr NoResult\<rparr>) = Inr NoResult"
    by simp
  have h4: "sendMessage_reply ok_world = Inr (Result (Some 42))"
    by (simp add: ok_world_def)
  show ?thesis
    using h1 h2 h3 h4
      sendInstantNotification_never_raises [of usa_tables alert_fail_world usa_call]
      sendInstantNotification_never_raises
        [of usa_tables "ok_world\<lparr>sendMessage_reply := Inr NoData\<rparr>" usa_call]
      sendInstantNotification_never_raises
        [of usa_tables "ok_world\<lparr>sendMessage_reply := Inr NoResult\<rparr>" usa_call]
      sendInstantNotification_never_raises [of usa_tables ok_world usa_call]
    by simp
qed

text \<open>
  Claim C4. If the alert fails to send, so that no message id is obtained (the value
  returned is not truthy), the notification ends there: its actions are those of the alert,
  and none of them arms the timer, downloads, writes or converts the audio, sends the audio
  message, deletes a message or removes a file.
\<close>

theorem failed_alert_ends_pipeline:
  assumes "snd (sendInstantNotification T w cd) = Inr v" and "\<not> truthy v"
  shows "start_notification T w cookies cd = (fst (sendInstantNotification T w cd), Inr ()) \<and>
         \<not> list_ex after_alert (fst (start_notification T w cookies cd))"
proof -
  obtain tr where s: "sendInstantNotification T w cd = (tr, Inr v)"
    using assms(1) by (cases "sendInstantNotification T w cd") auto
  have "start_notification T w cookies cd = (tr, Inr ())"
    using assms(2) by (simp add: start_notification_def s io_defs)
  then show ?thesis using s alert_trace_quiet[of T w cd] by simp
qed

theorem failed_alert_ends_pipeline_witness:
  "snd (sendInstantNotification usa_tables alert_fail_world usa_call) = Inr Null \<and>
   \<not> truthy Null \<and>
   start_notification usa_tables alert_fail_world [(''sid'', ''abc'')] usa_call =
     ([PostSendMessage
         \<lparr>notice_flag = Flag ''us'', notice_country = ''USA'', notice_number = ''155***4567''\<rparr>,
       LogError ''Failed to send instant notification: Bad Request: chat not found''],
      Inr ()) \<and>
   \<not> list_ex after_alert
         (fst (start_notification usa_tables alert_fail_world [(''sid'', ''abc'')] usa_call))"
proof -
  have h1: "snd (sendInstantNotification usa_tables alert_fail_world usa_call) = Inr Null"
    by (simp add: sendInstantNotification_cases alert_fail_world_def)
  have h2: "\<not> truthy Null"
    by (simp add: truthy_def)
  have tr: "fst (sendInstantNotification usa_tables alert_fail_world usa_call) =
     [PostSendMessage
        \<lparr>notice_flag = Flag ''us'', notice_country = ''USA'', notice_number = ''155***4567''\<rparr>,
      LogError ''Failed to send instant notification: Bad Request: chat not found'']"
    by (simp add: alert_fail_world_def pipeline_eval)
  show ?thesis
    using h1 h2 tr
      failed_alert_ends_pipeline [OF h1 h2, of "[(''sid'', ''abc'')]"]
    by simp
qed

subsection \<open>The worker\<close>

text \<open>
  Claim C3. When the conversion fails (ffmpeg reports an error after the audio has been
  downloaded and written), the \<^verbatim>\<open>try\<close> block of the worker ends with that error, the worker
  logs it and does nothing more: no audio message is sent, no deleteMessage call is issued
  for the alert, and no temporary file is removed, the downloaded WAV file included.
\<close>

theorem conversion_failure_no_cleanup:
  assumes "audio_reply w = Inr data" and "writeFile_reply w = Inr ()" and "ffmpeg_reply w = Inl err"
  shows "snd (processCallWorker_try T w cd cookies mid) = Inl err \<and>
         fst (processCallWorker T w cd cookies mid) =
           [HttpGet (audioUrl cd) (cookie_header cookies),
            WriteFile (wav_path w cd) data,
            LogInfo (''Audio file downloaded (WAV): '' @ wav_name w cd),
            Ffmpeg (wav_path w cd) (mp3_path w cd),
            LogError (''FFmpeg conversion error: '' @ message err),
            LogError (''Error processing call for '' @ cliNumber cd @ '': '' @ message err)] \<and>
         \<not> list_ex is_send_audio (fst (start_notification T w cookies cd)) \<and>
         \<not> list_ex is_delete_message (fst (start_notification T w cookies cd)) \<and>
         \<not> list_ex is_unlink (fst (start_notification T w cookies cd)) \<and>
         LogInfo ''Temporary files deleted.'' \<notin> set (fst (start_notification T w cookies cd))"
proof -
  have t: "snd (processCallWorker_try T w cd cookies mid) = Inl err"
    by (simp add: worker_try_conversion_fails[OF assms])
  have k: "fst (processCallWorker T w cd cookies mid) =
           [HttpGet (audioUrl cd) (cookie_header cookies),
            WriteFile (wav_path w cd) data,
            LogInfo (''Audio file downloaded (WAV): '' @ wav_name w cd),
            Ffmpeg (wav_path w cd) (mp3_path w cd),
            LogError (''FFmpeg conversion error: '' @ message err),
            LogError (''Error processing call for '' @ cliNumber cd @ '': '' @ message err)]"
    by (simp add: worker_conversion_fails[OF assms])
  have n: "\<not> list_ex is_send_audio (fst (start_notification T w cookies cd)) \<and>
         \<not> list_ex is_delete_message (fst (start_notification T w cookies cd)) \<and>
         \<not> list_ex is_unlink (fst (start_notification T w cookies cd)) \<and>
         LogInfo ''Temporary files deleted.'' \<notin> set (fst (start_notification T w cookies cd))"
    by (simp add: start_notification_cases sendInstantNotification_cases
        worker_conversion_fails[OF assms]
        split: sum.splits reply_body.splits option.splits)
  show ?thesis using t k n by blast
qed

theorem conversion_failure_no_cleanup_witness:
  "audio_reply ffmpeg_fail_world = Inr ''RIFF'' \<and>
   writeFile_reply ffmpeg_fail_world = Inr () \<and>
   ffmpeg_reply ffmpeg_fail_world = Inl (Error ''ffmpeg exited with code 1'' None) \<and>
   snd (processCallWorker_try usa_tables ffmpeg_fail_world usa_call [(''sid'', ''abc'')] (MessageId 42))
     = Inl (Error ''ffmpeg exited with code 1'' None) \<and>
   \<not> list_ex is_send_audio
         (fst (start_notification usa_tables ffmpeg_fail_world [(''sid'', ''abc'')] usa_call)) \<and>
   \<not> list_ex is_delete_message
         (fst (start_notification usa_tables ffmpeg_fail_world [(''sid'', ''abc'')] usa_call)) \<and>
   \<not> list_ex is_unlink
         (fst (start_notification usa_tables ffmpeg_fail_world [(''sid'', ''abc'')] usa_call))"
proof -
  have h1: "audio_reply ffmpeg_fail_world = Inr ''RIFF''"
    by (simp add: ffmpeg_fail_world_def ok_world_def)
  have h2: "writeFile_reply ffmpeg_fail_world = Inr ()"
    by (simp add: ffmpeg_fail_world_def ok_world_def)
  have h3: "ffmpeg_reply ffmpeg_fail_world = Inl (Error ''ffmpeg exited with code 1'' None)"
    by (simp add: ffmpeg_fail_world_def)
  show ?thesis
    using h1 h2 h3
      conversion_failure_no_cleanup
        [OF h1 h2 h3, of usa_tables usa_call "[(''sid'', ''abc'')]" "MessageId 42"]
    by simp
qed

text \<open>
  Claim C2, as stated: when sending the converted audio fails, the alert is not deleted and
  the temporary files are not removed. In the world where only the audio message fails,
  the \<^verbatim>\<open>try\<close> block of the worker ends normally, the deleteMessage call for the alert
  (message id 42) is issued and both temporary files are removed.
\<close>

theorem audio_send_failure_counterexample:
  "sendAudio_reply audio_fail_world = Inl (Error ''timeout of 30000ms exceeded'' None) \<and>
   snd (processCallWorker_try usa_tables audio_fail_world usa_call [(''sid'', ''abc'')] (MessageId 42))
     = Inr () \<and>
   PostDeleteMessage (MessageId 42)
     \<in> set (fst (start_notification usa_tables audio_fail_world [(''sid'', ''abc'')] usa_call)) \<and>
   Unlink ''/app/call_1700000000000_CLI1.wav''
     \<in> set (fst (start_notification usa_tables audio_fail_world [(''sid'', ''abc'')] usa_call)) \<and>
   Unlink ''/app/call_1700000000000_CLI1.mp3''
     \<in> set (fst (start_notification usa_tables audio_fail_world [(''sid'', ''abc'')] usa_call)) \<and>
   LogInfo ''Temporary files deleted.''
     \<in> set (fst (start_notification usa_tables audio_fail_world [(''sid'', ''abc'')] usa_call))"
proof -
  have r: "sendAudio_reply audio_fail_world = Inl (Error ''timeout of 30000ms exceeded'' None)"
    by (simp add: audio_fail_world_def)
  have t: "snd (processCallWorker_try usa_tables audio_fail_world usa_call [(''sid'', ''abc'')]
                  (MessageId 42)) = Inr ()"
    by (simp add: audio_fail_world_def pipeline_eval)
  show ?thesis using r t by (simp add: audio_fail_run)
qed

lemma delete_returns: "\<exists>tr b. deleteTelegramMessage w mid = (PostDeleteMessage mid # tr, Inr b)"
  by (cases "deleteMessage_reply w") (auto simp: deleteTelegramMessage_def io_defs)

text \<open>
  Claim C2, amended. If sending the converted audio to the sink fails, the sender logs the
  failure and returns false, and the worker, which does not read that value, goes on as after
  a successful send: it issues the deleteMessage call for the alert when the message id is
  truthy, and removes the temporary files (the MP3 file once the WAV file is removed); when
  both removals succeed the \<^verbatim>\<open>try\<close> block ends normally, after the log entry on the deleted
  files.
\<close>

theorem audio_send_failure_amended:
  assumes "audio_reply w = Inr data" and "writeFile_reply w = Inr ()"
    and "ffmpeg_reply w = Inr ()" and "sendAudio_reply w = Inl e"
  shows "sendAudioToTelegramGroup w caption filePath =
           ([PostSendAudio caption filePath,
             LogError (''Failed to send audio file: '' @ error_text e)], Inr False) \<and>
         (truthy mid \<longrightarrow>
            PostDeleteMessage mid \<in> set (fst (processCallWorker T w cd cookies mid))) \<and>
         Unlink (wav_path w cd) \<in> set (fst (processCallWorker T w cd cookies mid)) \<and>
         (unlink_wav_reply w = Inr () \<longrightarrow>
            Unlink (mp3_path w cd) \<in> set (fst (processCallWorker T w cd cookies mid))) \<and>
         (unlink_wav_reply w = Inr () \<and> unlink_mp3_reply w = Inr () \<longrightarrow>
            snd (processCallWorker_try T w cd cookies mid) = Inr () \<and>
            LogInfo ''Temporary files deleted.'' \<in> set (fst (processCallWorker T w cd cookies mid)))"
proof -
  have s: "\<And>caption filePath. sendAudioToTelegramGroup w caption filePath =
           ([PostSendAudio caption filePath,
             LogError (''Failed to send audio file: '' @ error_text e)], Inr False)"
    using assms(4) by (simp add: sendAudioToTelegramGroup_def io_defs)
  obtain dtr b where d: "deleteTelegramMessage w mid = (PostDeleteMessage mid # dtr, Inr b)"
    using delete_returns by blast
  define pre where "pre = [HttpGet (audioUrl cd) (cookie_header cookies),
       WriteFile (wav_path w cd) data,
       LogInfo (''Audio file downloaded (WAV): '' @ wav_name w cd),
       Ffmpeg (wav_path w cd) (mp3_path w cd),
       LogInfo (''Converted to MP3: '' @ basename (mp3_path w cd)),
       PostSendAudio (notice_of T cd) (mp3_path w cd),
       LogError (''Failed to send audio file: '' @ error_text e)]
       @ (if truthy mid then PostDeleteMessage mid # dtr else [])"
  have t: "processCallWorker_try T w cd cookies mid =
     (case unlink_wav_reply w of
        Inl x \<Rightarrow> (pre @ [Unlink (wav_path w cd)], Inl x)
      | Inr _ \<Rightarrow>
         (case unlink_mp3_reply w of
            Inl y \<Rightarrow> (pre @ [Unlink (wav_path w cd), Unlink (mp3_path w cd)], Inl y)
          | Inr _ \<Rightarrow> (pre @ [Unlink (wav_path w cd), Unlink (mp3_path w cd),
                            LogInfo ''Temporary files deleted.''], Inr ())))"
    using assms
    by (simp add: processCallWorker_try_def convert_def s d io_defs Let_def pre_def
        split: sum.splits)
  have p: "truthy mid \<Longrightarrow> PostDeleteMessage mid \<in> set pre"
    by (simp add: pre_def)
  have 2: "truthy mid \<longrightarrow> PostDeleteMessage mid \<in> set (fst (processCallWorker T w cd cookies mid))"
    using p by (auto simp: processCallWorker_def t io_defs split: sum.splits)
  have 3: "Unlink (wav_path w cd) \<in> set (fst (processCallWorker T w cd cookies mid))"
    by (auto simp: processCallWorker_def t io_defs split: sum.splits)
  have 4: "unlink_wav_reply w = Inr () \<longrightarrow>
            Unlink (mp3_path w cd) \<in> set (fst (processCallWorker T w cd cookies mid))"
    by (auto simp: processCallWorker_def t io_defs split: sum.splits)
  have 5: "unlink_wav_reply w = Inr () \<and> unlink_mp3_reply w = Inr () \<longrightarrow>
            snd (processCallWorker_try T w cd cookies mid) = Inr () \<and>
            LogInfo ''Temporary files deleted.'' \<in> set (fst (processCallWorker T w cd cookies mid))"
    by (auto simp: processCallWorker_def t io_defs split: sum.splits)
  show ?thesis using s 2 3 4 5 by blast
qed

theorem audio_send_failure_amended_witness:
  "audio_reply audio_fail_world = Inr ''RIFF'' \<and>
   writeFile_reply audio_fail_world = Inr () \<and>
   ffmpeg_reply audio_fail_world = Inr () \<and>
   sendAudio_reply audio_fail_world = Inl (Error ''timeout of 30000ms exceeded'' None) \<and>
   truthy (MessageId 42) \<and>
   unlink_wav_reply audio_fail_world = Inr () \<and>
   unlink_mp3_reply audio_fail_world = Inr () \<and>
   PostDeleteMessage (MessageId 42)
     \<in> set (fst (processCallWorker usa_tables audio_fail_world usa_call [] (MessageId 42))) \<and>
   Unlink (wav_path audio_fail_world usa_call)
     \<in> set (fst (processCallWorker usa_tables audio_fail_world usa_call [] (MessageId 42))) \<and>
   Unlink (mp3_path audio_fail_world usa_call)
     \<in> set (fst (processCallWorker usa_tables audio_fail_world usa_call [] (MessageId 42))) \<and>
   snd (processCallWorker_try usa_tables audio_fail_world usa_call [] (MessageId 42)) = Inr ()"
proof -
  have h1: "audio_reply audio_fail_world = Inr ''RIFF''"
    by (simp add: audio_fail_world_def ok_world_def)
  have h2: "writeFile_reply audio_fail_world = Inr ()"
    by (simp add: audio_fail_world_def ok_world_def)
  have h3: "ffmpeg_reply audio_fail_world = Inr ()"
    by (simp add: audio_fail_world_def ok_world_def)
  have h4: "sendAudio_reply audio_fail_world = Inl (Error ''timeout of 30000ms exceeded'' None)"
    by (simp add: audio_fail_world_def)
  have h5: "truthy (MessageId 42)"
    by (simp add: truthy_def)
  have h6: "unlink_wav_reply audio_fail_world = Inr ()"
    by (simp add: audio_fail_world_def ok_world_def)
  have h7: "unlink_mp3_reply audio_fail_world = Inr ()"
    by (simp add: audio_fail_world_def ok_world_def)
  show ?thesis
    using h1 h2 h3 h4 h5 h6 h7
      audio_send_failure_amended
        [OF h1 h2 h3 h4, where mid = "MessageId 42" and T = usa_tables and cd = usa_call
         and cookies = "[]"]
    by simp
qed

subsection \<open>Login\<close>

lemma login_try_undetected:
  assumes "fields_not_detected a"
  shows "login_try a =
     ([Launch, NewPage, LogInfo ''Opening login page...'', GotoLogin,
       LogInfo ''Waiting 5 sec before scanning form...'', Wait 5000, ScanInputs],
      Inl (Error ''Could not detect email or password field!'' None))"
proof -
  from assms obtain inputs where i: "inputs_reply a = Inr inputs"
    by (cases "inputs_reply a") (auto simp: fields_not_detected_def)
  from assms i have s: "(case scan_inputs 0 inputs None None of
              (Some emailField, Some passField) \<Rightarrow> False
            | _ \<Rightarrow> True)"
    by (simp add: fields_not_detected_def)
  from assms have r: "launch_reply a = Inr ()" "newPage_reply a = Inr ()" "goto_login_reply a = Inr ()"
    by (simp_all add: fields_not_detected_def)
  show ?thesis using s
    by (simp add: login_try_def r i io_defs split: prod.splits option.splits)
qed

lemma login_catch_undetected:
  assumes "fields_not_detected a" and "close_reply a = Inr ()"
  shows "login_catch a n err =
     ([LogError (''Login attempt '' @ show_nat n @ '' failed: '' @ message err), CloseBrowser], Inr ())"
  using assms by (simp add: login_catch_def browser_set_def fields_not_detected_def io_defs)

lemma login_loop_undetected:
  assumes "\<forall>i<maxRetries. fields_not_detected (attempts i) \<and> close_reply (attempts i) = Inr ()"
  shows "snd (login_loop attempts maxRetries k) = Inr None \<and>
         filter (\<lambda>a. is_launch a \<or> is_close a) (fst (login_loop attempts maxRetries k)) =
           concat (replicate (maxRetries - k) [Launch, CloseBrowser])"
  using assms
proof (induction attempts maxRetries k rule: login_loop.induct)
  case (1 attempts maxRetries attempt)
  show ?case
  proof (cases "attempt < maxRetries")
    case False
    then show ?thesis by (simp add: login_loop.simps[of attempts maxRetries attempt])
  next
    case True
    with "1.prems" have f: "fields_not_detected (attempts attempt)"
      and c: "close_reply (attempts attempt) = Inr ()" by auto
    note t = login_try_undetected[OF f]
    note h = login_catch_undetected[OF f c]
    show ?thesis
    proof (cases "attempt + 1 \<ge> maxRetries")
      case last: True
      with True have m: "maxRetries - attempt = 1" by simp
      show ?thesis using True last
        by (simp add: login_loop.simps[of attempts maxRetries attempt] t h m)
    next
      case more: False
      obtain tr r where rec: "login_loop attempts maxRetries (attempt + 1) = (tr, r)"
        by (cases "login_loop attempts maxRetries (attempt + 1)")
      have IH: "snd (login_loop attempts maxRetries (attempt + 1)) = Inr None \<and>
         filter (\<lambda>a. is_launch a \<or> is_close a) (fst (login_loop attempts maxRetries (attempt + 1))) =
           concat (replicate (maxRetries - (attempt + 1)) [Launch, CloseBrowser])"
        by (rule "1.IH"[OF True t[symmetric] refl
              h[of "attempt + 1" "Error ''Could not detect email or password field!'' None", symmetric]
              refl more "1.prems"])
      have m: "maxRetries - attempt = Suc (maxRetries - (attempt + 1))" using True by simp
      have rec': "login_loop attempts maxRetries (Suc attempt) = (tr, r)" using rec by simp
      have IH': "r = Inr None \<and> filter (\<lambda>a. is_launch a \<or> is_close a) tr =
           concat (replicate (maxRetries - (attempt + 1)) [Launch, CloseBrowser])"
        using IH rec by simp
      show ?thesis using True more IH'
        by (simp add: login_loop.simps[of attempts maxRetries attempt] t h rec' m)
    qed
  qed
qed


lemma launches_replicate:
  "length (filter is_launch (concat (replicate n [Launch, CloseBrowser]))) = n"
  by (induction n) auto

lemma closes_replicate:
  "length (filter is_close (concat (replicate n [Launch, CloseBrowser]))) = n"
  by (induction n) auto

lemma blank_page_undetected: "fields_not_detected blank_page"
  by (simp add: fields_not_detected_def blank_page_def looks_like_email_def
      mentions_email_def toLowerCase_def lower_char_def lower_letters_def upper_letters_def)

lemma close_fails_undetected: "fields_not_detected close_fails_page"
  using blank_page_undetected by (simp add: fields_not_detected_def close_fails_page_def)

lemma close_fails_run:
  "loginToDashboard close_fails_attempts 2 =
     ([Launch, NewPage, LogInfo ''Opening login page...'', GotoLogin,
       LogInfo ''Waiting 5 sec before scanning form...'', Wait 5000, ScanInputs,
       LogError ''Login attempt 1 failed: Could not detect email or password field!'',
       CloseBrowser],
      Inl (Error ''Protocol error: Target closed'' None))"
proof -
  have h: "login_catch close_fails_page (Suc 0)
             (Error ''Could not detect email or password field!'' None) =
     ([LogError ''Login attempt 1 failed: Could not detect email or password field!'',
       CloseBrowser],
      Inl (Error ''Protocol error: Target closed'' None))"
    by (simp add: login_catch_def browser_set_def close_fails_page_def blank_page_def io_defs
        show_nat.simps [of "Suc 0"])
  show ?thesis
    by (simp add: loginToDashboard_def login_loop.simps [of close_fails_attempts 2 0]
        close_fails_attempts_def login_try_undetected [OF close_fails_undetected] h)
qed

text \<open>
  Claim C5, as stated: whenever the fields are detected on no attempt, the login makes
  exactly \<open>maxRetries\<close> attempts and returns no session. With two attempts allowed and a
  browser whose \<^verbatim>\<open>close()\<close> rejects, the fields are not detected, the \<^verbatim>\<open>catch\<close> block awaits
  \<^verbatim>\<open>browser.close()\<close>, and its rejection leaves the function: one launch instead of two, and
  an error instead of \<^verbatim>\<open>null\<close>.
\<close>

theorem login_close_rejects_counterexample:
  "fields_not_detected (close_fails_attempts 0) \<and>
   fields_not_detected (close_fails_attempts 1) \<and>
   snd (loginToDashboard close_fails_attempts 2) = Inl (Error ''Protocol error: Target closed'' None) \<and>
   snd (loginToDashboard close_fails_attempts 2) \<noteq> Inr None \<and>
   length (filter is_launch (fst (loginToDashboard close_fails_attempts 2))) = 1 \<and>
   length (filter is_launch (fst (loginToDashboard close_fails_attempts 2))) \<noteq> 2"
  using close_fails_undetected by (simp add: close_fails_run close_fails_attempts_def)

text \<open>
  Claim C5, amended. If on every attempt the page opens and the scan of its inputs does not
  find both the email field and the password field, and \<^verbatim>\<open>browser.close()\<close> does not reject,
  the login makes exactly \<open>maxRetries\<close> attempts, closes the browser after each of them, the
  last one included, and returns no session: the launches and closings of the browser
  alternate, \<open>maxRetries\<close> times, and the result is \<^verbatim>\<open>null\<close>.
\<close>

theorem login_fields_never_detected:
  assumes "\<forall>i<maxRetries. fields_not_detected (attempts i) \<and> close_reply (attempts i) = Inr ()"
  shows "snd (loginToDashboard attempts maxRetries) = Inr None \<and>
         length (filter is_launch (fst (loginToDashboard attempts maxRetries))) = maxRetries \<and>
         length (filter is_close (fst (loginToDashboard attempts maxRetries))) = maxRetries \<and>
         filter (\<lambda>a. is_launch a \<or> is_close a) (fst (loginToDashboard attempts maxRetries)) =
           concat (replicate maxRetries [Launch, CloseBrowser])"
proof -
  let ?tr = "fst (loginToDashboard attempts maxRetries)"
  have l: "snd (loginToDashboard attempts maxRetries) = Inr None"
    and f: "filter (\<lambda>a. is_launch a \<or> is_close a) ?tr = concat (replicate maxRetries [Launch, CloseBrowser])"
    using login_loop_undetected[OF assms, of 0] by (simp_all add: loginToDashboard_def)
  have "filter is_launch ?tr = filter is_launch (filter (\<lambda>a. is_launch a \<or> is_close a) ?tr)"
    by (simp add: conj_commute cong: conj_cong)
  then have a: "length (filter is_launch ?tr) = maxRetries"
    unfolding f by (simp add: launches_replicate)
  have "filter is_close ?tr = filter is_close (filter (\<lambda>a. is_launch a \<or> is_close a) ?tr)"
    by (simp add: conj_commute cong: conj_cong)
  then have b: "length (filter is_close ?tr) = maxRetries"
    unfolding f by (simp add: closes_replicate)
  show ?thesis using l f a b by blast
qed

theorem login_fields_never_detected_witness:
  "fields_not_detected blank_page \<and> close_reply blank_page = Inr () \<and>
   snd (loginToDashboard (\<lambda>i. blank_page) 2) = Inr None \<and>
   length (filter is_launch (fst (loginToDashboard (\<lambda>i. blank_page) 2))) = 2 \<and>
   length (filter is_close (fst (loginToDashboard (\<lambda>i. blank_page) 2))) = 2 \<and>
   filter (\<lambda>a. is_launch a \<or> is_close a) (fst (loginToDashboard (\<lambda>i. blank_page) 2)) =
     [Launch, CloseBrowser, Launch, CloseBrowser]"
proof -
  have f: "fields_not_detected blank_page"
    by (rule blank_page_undetected)
  have c: "close_reply blank_page = Inr ()"
    by (simp add: blank_page_def)
  have h: "\<forall>i<2. fields_not_detected ((\<lambda>i. blank_page) i) \<and>
                 close_reply ((\<lambda>i. blank_page) i) = Inr ()"
    using f c by simp
  have r: "concat (replicate 2 [Launch, CloseBrowser]) = [Launch, CloseBrowser, Launch, CloseBrowser]"
    by (simp add: numeral_2_eq_2)
  show ?thesis
    using f c r login_fields_never_detected [OF h]
    by simp
qed

end
